theory Spec2Isabelle
  imports
    Main
    "HOL-Library.Sublist"
    "HOL-Library.Char_ord"
    "HOL-Library.List_Lexorder"
    "HOL-Library.AList"
begin

section \<open>Python values used by \<^verbatim>\<open>tools/misc/update_model_index.py\<close>\<close>

text \<open>
  Text is a \<^typ>\<open>string\<close>; each \<^typ>\<open>char\<close> stands for one code point below 256.
  An exception of the script is a value of \<open>error\<close>: a function that can raise returns
  \<open>error + 'a\<close>, with \<open>Inl\<close> for the exception.
\<close>

datatype error =
  IndexError | ValueError | UnboundLocalError | OverflowError | FileNotFoundError

subsection \<open>Substring search\<close>

text \<open>\<^verbatim>\<open>sub in s\<close>.\<close>

fun contains :: "string \<Rightarrow> string \<Rightarrow> bool" where
  "contains sub [] = (sub = [])"
| "contains sub (c # cs) = (prefix sub (c # cs) \<or> contains sub cs)"

text \<open>\<^verbatim>\<open>s.find(sub)\<close>: the lowest index, \<open>None\<close> for Python's \<open>-1\<close>.\<close>

fun py_find :: "string \<Rightarrow> string \<Rightarrow> nat option" where
  "py_find sub [] = (if sub = [] then Some 0 else None)"
| "py_find sub (c # cs) =
     (if prefix sub (c # cs) then Some 0 else map_option Suc (py_find sub cs))"

text \<open>\<^verbatim>\<open>s.index(sub)\<close> and \<^verbatim>\<open>s.index(sub, start)\<close> raise \<open>ValueError\<close> where \<open>find\<close> gives \<open>-1\<close>.\<close>

definition py_index :: "string \<Rightarrow> string \<Rightarrow> error + nat" where
  "py_index sub s = (case py_find sub s of None \<Rightarrow> Inl ValueError | Some k \<Rightarrow> Inr k)"

definition py_index_from :: "string \<Rightarrow> string \<Rightarrow> nat \<Rightarrow> error + nat" where
  "py_index_from sub s start =
     (case py_find sub (drop start s) of
        None \<Rightarrow> Inl ValueError
      | Some k \<Rightarrow> Inr (start + k))"

text \<open>\<^verbatim>\<open>s.rfind(sub)\<close>: the highest index.\<close>

fun py_rfind :: "string \<Rightarrow> string \<Rightarrow> nat option" where
  "py_rfind sub [] = (if sub = [] then Some 0 else None)"
| "py_rfind sub (c # cs) =
     (case py_rfind sub cs of
        Some k \<Rightarrow> Some (Suc k)
      | None \<Rightarrow> if prefix sub (c # cs) then Some 0 else None)"

subsection \<open>Splitting, stripping, letter case\<close>

text \<open>\<^verbatim>\<open>s.split(c)\<close> for a one-character separator.\<close>

fun split_on :: "char \<Rightarrow> string \<Rightarrow> string list" where
  "split_on c [] = [[]]"
| "split_on c (x # xs) =
     (if x = c then [] # split_on c xs
      else (case split_on c xs of [] \<Rightarrow> [[x]] | p # ps \<Rightarrow> (x # p) # ps))"

text \<open>The characters \<^verbatim>\<open>str.strip()\<close> removes: those with \<^verbatim>\<open>isspace()\<close> below code point 256.\<close>

definition whitespace :: string where
  "whitespace =
     [CHR 0x09, CHR 0x0A, CHR 0x0B, CHR 0x0C, CHR 0x0D,
      CHR 0x1C, CHR 0x1D, CHR 0x1E, CHR 0x1F, CHR 0x20, CHR 0x85, CHR 0xA0]"

text \<open>\<^verbatim>\<open>s.strip(chars)\<close>.\<close>

definition strip_chars :: "string \<Rightarrow> string \<Rightarrow> string" where
  "strip_chars cs s =
     rev (dropWhile (\<lambda>c. c \<in> set cs) (rev (dropWhile (\<lambda>c. c \<in> set cs) s)))"

text \<open>\<^verbatim>\<open>s.strip()\<close>.\<close>

definition py_strip :: "string \<Rightarrow> string" where
  "py_strip s = strip_chars whitespace s"

text \<open>
  \<^verbatim>\<open>upper()\<close>, \<^verbatim>\<open>lower()\<close> and \<^verbatim>\<open>capitalize()\<close> on ASCII text; the script applies the
  first and the last to its vocabulary only, which is ASCII.
\<close>

definition lowercase :: string where
  "lowercase = ''abcdefghijklmnopqrstuvwxyz''"

definition uppercase :: string where
  "uppercase = ''ABCDEFGHIJKLMNOPQRSTUVWXYZ''"

definition upper_char :: "char \<Rightarrow> char" where
  "upper_char c = (case map_of (zip lowercase uppercase) c of Some u \<Rightarrow> u | None \<Rightarrow> c)"

definition lower_char :: "char \<Rightarrow> char" where
  "lower_char c = (case map_of (zip uppercase lowercase) c of Some l \<Rightarrow> l | None \<Rightarrow> c)"

definition upper :: "string \<Rightarrow> string" where
  "upper s = map upper_char s"

definition lower :: "string \<Rightarrow> string" where
  "lower s = map lower_char s"

definition capitalize :: "string \<Rightarrow> string" where
  "capitalize s = (case s of [] \<Rightarrow> [] | c # cs \<Rightarrow> upper_char c # lower cs)"

subsection \<open>Digits and \<^verbatim>\<open>re.search(r'\d+', s)\<close>\<close>

definition is_digit :: "char \<Rightarrow> bool" where
  "is_digit c = (c \<in> set ''0123456789'')"

definition digit_val :: "char \<Rightarrow> nat" where
  "digit_val c = length (takeWhile (\<lambda>d. d \<noteq> c) ''0123456789'')"

definition digit_char :: "nat \<Rightarrow> char" where
  "digit_char n = ''0123456789'' ! n"

text \<open>The number that a run of decimal digits denotes.\<close>

definition int_of_digits :: "string \<Rightarrow> nat" where
  "int_of_digits ds = foldl (\<lambda>n c. 10 * n + digit_val c) 0 ds"

text \<open>
  \<^verbatim>\<open>int(digits)\<close> with CPython's default limit on the length of an integer text: more
  than 4300 digits raise \<open>ValueError\<close>.
\<close>

definition py_int :: "string \<Rightarrow> error + nat" where
  "py_int ds = (if 4300 < length ds then Inl ValueError else Inr (int_of_digits ds))"

text \<open>
  The span \<open>(l, r)\<close> of the first match of \<^verbatim>\<open>\d+\<close>: the leftmost digit and the whole run of
  digits after it.
\<close>

definition digit_span :: "string \<Rightarrow> (nat \<times> nat) option" where
  "digit_span s =
     (let l = length (takeWhile (\<lambda>c. \<not> is_digit c) s) in
      if l = length s then None
      else Some (l, l + length (takeWhile is_digit (drop l s))))"

fun show_digits :: "nat \<Rightarrow> string" where
  "show_digits n =
     (if n < 10 then [digit_char n]
      else show_digits (n div 10) @ [digit_char (n mod 10)])"

subsection \<open>\<^verbatim>\<open>str(int(digits) * 0.01)\<close>: binary64 arithmetic\<close>

text \<open>
  A positive binary64 number is a pair \<open>(m, e)\<close> standing for \<open>m * 2 ^ e\<close>, with
  \<open>2 ^ 52 \<le> m < 2 ^ 53\<close>. \<open>to_double a b\<close> is the number nearest to the fraction \<open>a / b\<close>,
  ties to the even mantissa. The products of the script are at least \<open>0.01\<close>, so no
  subnormal number occurs.
\<close>

fun nbits :: "nat \<Rightarrow> nat" where
  "nbits n = (if n = 0 then 0 else Suc (nbits (n div 2)))"

definition round_half_even :: "nat \<Rightarrow> nat \<Rightarrow> nat" where
  "round_half_even a b =
     (let q = a div b; r = a mod b in
      if 2 * r < b \<or> (2 * r = b \<and> even q) then q else q + 1)"

definition pow2 :: "int \<Rightarrow> nat" where
  "pow2 e = 2 ^ nat e"

definition to_double :: "nat \<Rightarrow> nat \<Rightarrow> nat \<times> int" where
  "to_double a b =
     (let e1 = int (nbits a) - int (nbits b) - 53;
          e = (if a * pow2 (- e1) < 2 ^ 53 * (b * pow2 e1) then e1 else e1 + 1);
          m = round_half_even (a * pow2 (- e)) (b * pow2 e)
      in if m = 2 ^ 53 then (2 ^ 52, e + 1) else (m, e))"

text \<open>
  The conversion of a Python integer to a float raises \<open>OverflowError\<close> when the nearest
  number would be \<open>2 ^ 1024\<close> or more.
\<close>

definition int_to_float :: "nat \<Rightarrow> error + nat \<times> int" where
  "int_to_float n =
     (case to_double n 1 of (m, e) \<Rightarrow> if 971 < e then Inl OverflowError else Inr (m, e))"

text \<open>The float literal \<^verbatim>\<open>0.01\<close>: \<open>0x147AE147AE147B * 2 ^ -59\<close>.\<close>

definition hundredth :: "nat \<times> int" where
  "hundredth = (5764607523034235, - 59)"

definition float_mul :: "nat \<times> int \<Rightarrow> nat \<times> int \<Rightarrow> nat \<times> int" where
  "float_mul x y =
     (case (x, y) of ((m1, e1), (m2, e2)) \<Rightarrow>
        to_double (m1 * m2 * pow2 (e1 + e2)) (pow2 (- (e1 + e2))))"

text \<open>
  \<^verbatim>\<open>repr\<close> of a float: the shortest run of decimal digits that reads back as the same
  number, the nearest to it among those of that length (17 digits always read back).
  \<open>v / d\<close> is the number and
  \<open>lo / d\<close>, \<open>hi / d\<close> the midpoints to its two neighbours; \<open>decpt\<close> is the position of the
  decimal point (\<open>10 ^ (decpt - 1) \<le> v / d < 10 ^ decpt\<close>).
\<close>

function dec_shift :: "nat \<Rightarrow> nat \<Rightarrow> nat" where
  "dec_shift v d = (if v = 0 \<or> d \<le> v then 0 else Suc (dec_shift (10 * v) d))"
  by pat_completeness auto
termination
  by (relation "measure (\<lambda>(v, d). d - v)") auto

definition decpt_of :: "nat \<Rightarrow> nat \<Rightarrow> int" where
  "decpt_of v d =
     (if d \<le> v then int (length (show_digits (v div d))) else 1 - int (dec_shift v d))"

function shortest ::
  "nat \<Rightarrow> bool \<Rightarrow> nat \<Rightarrow> nat \<Rightarrow> nat \<Rightarrow> nat \<Rightarrow> int \<Rightarrow> nat \<times> nat" where
  "shortest k inclusive lo v hi d decpt =
     (let p = decpt - int k;
          sn = 10 ^ nat (- p);
          q = d * 10 ^ nat p;
          d1 = (v * sn) div q;
          r = (v * sn) mod q;
          ok1 = (if inclusive then lo * sn \<le> d1 * q \<and> d1 * q \<le> hi * sn
                 else lo * sn < d1 * q \<and> d1 * q < hi * sn);
          ok2 = (if inclusive then lo * sn \<le> (d1 + 1) * q \<and> (d1 + 1) * q \<le> hi * sn
                 else lo * sn < (d1 + 1) * q \<and> (d1 + 1) * q < hi * sn)
      in if (ok1 \<and> ok2) \<or> 17 \<le> k then
           (if 2 * r < q \<or> (2 * r = q \<and> even d1) then (d1, k) else (d1 + 1, k))
         else if ok1 then (d1, k)
         else if ok2 then (d1 + 1, k)
         else shortest (k + 1) inclusive lo v hi d decpt)"
  by pat_completeness auto
termination
  by (relation "measure (\<lambda>(k, inclusive, lo, v, hi, d, decpt). 17 - k)") auto

definition strip_zeros :: "string \<Rightarrow> string" where
  "strip_zeros s = rev (dropWhile (\<lambda>c. c = CHR ''0'') (rev s))"

definition float_repr :: "nat \<times> int \<Rightarrow> string" where
  "float_repr x =
     (case x of (m, e) \<Rightarrow>
        let un = pow2 (e - 2);
            d = pow2 (2 - e);
            v = 4 * m * un;
            hi = (4 * m + 2) * un;
            lo = (4 * m - (if m = 2 ^ 52 then 1 else 2)) * un;
            decpt = decpt_of v d;
            (c, k) = shortest 1 (even m) lo v hi d decpt;
            raw = show_digits c;
            ds = strip_zeros raw;
            dp = decpt + int (length raw) - int k;
            n = length ds
        in if 16 < dp \<or> dp < - 3 then
             take 1 ds @ (if 1 < n then ''.'' @ drop 1 ds else [])
               @ ''e'' @ (if dp < 1 then ''-'' else ''+'')
               @ (if nat (abs (dp - 1)) < 10 then ''0'' else [])
               @ show_digits (nat (abs (dp - 1)))
           else if dp \<le> 0 then ''0.'' @ replicate (nat (- dp)) (CHR ''0'') @ ds
           else if int n \<le> dp then ds @ replicate (nat dp - n) (CHR ''0'') @ ''.0''
           else take (nat dp) ds @ ''.'' @ drop (nat dp) ds)"

text \<open>\<^verbatim>\<open>str(n * 0.01)\<close> for an integer \<open>n \<ge> 0\<close>; zero times \<open>0.01\<close> is \<open>0.0\<close>.\<close>

definition str_hundredths :: "nat \<Rightarrow> error + string" where
  "str_hundredths n =
     (if n = 0 then Inr ''0.0''
      else case int_to_float n of
             Inl err \<Rightarrow> Inl err
           | Inr x \<Rightarrow> Inr (float_repr (float_mul x hundredth)))"

section \<open>\<^verbatim>\<open>collate_metrics\<close>\<close>

definition all_metrics :: "string list" where
  "all_metrics =
     [''acc'', ''ap'', ''ar'', ''pck'', ''auc'', ''3dpck'', ''p-3dpck'', ''3dauc'',
      ''p-3dauc'', ''epe'', ''nme'', ''mpjpe'', ''p-mpjpe'', ''n-mpjpe'', ''mean'', ''head'',
      ''sho'', ''elb'', ''wri'', ''hip'', ''knee'', ''ank'', ''total'']"

definition non_metric_columns :: "string list" where
  "non_metric_columns = [''Arch'', ''Input Size'', ''ckpt'', ''log'']"

text \<open>The test \<^verbatim>\<open>metric.upper() in key or metric.capitalize() in key\<close>.\<close>

definition metric_in_key :: "string \<Rightarrow> string \<Rightarrow> bool" where
  "metric_in_key metric key = (contains (upper metric) key \<or> contains (capitalize metric) key)"

text \<open>
  The inner loop \<^verbatim>\<open>while key[i] != '>': i += 1\<close>, started after a \<open><\<close>: the text after the
  first \<open>>\<close>, or \<open>None\<close> when the index runs off the end of the key (\<open>IndexError\<close>).
\<close>

fun skip_angle :: "string \<Rightarrow> string option" where
  "skip_angle [] = None"
| "skip_angle (c # cs) = (if c = CHR ''>'' then Some cs else skip_angle cs)"

lemma skip_angle_length: "skip_angle cs = Some r \<Longrightarrow> length r < Suc (length cs)"
  by (induction cs) (auto split: if_splits)

text \<open>The loop over the characters of the key that builds \<^verbatim>\<open>used_metric\<close>.\<close>

function rewrite_key :: "string \<Rightarrow> error + string" where
  "rewrite_key [] = Inr []"
| "rewrite_key (c # cs) =
     (if c = CHR ''<'' then
        (case skip_angle cs of
           None \<Rightarrow> Inl IndexError
         | Some rest \<Rightarrow> rewrite_key rest)
      else if c = CHR ''*'' \<or> c = CHR ''_'' then
        (case rewrite_key cs of Inl err \<Rightarrow> Inl err | Inr u \<Rightarrow> Inr (CHR '' '' # u))
      else
        (case rewrite_key cs of Inl err \<Rightarrow> Inl err | Inr u \<Rightarrow> Inr (c # u)))"
  by pat_completeness auto
termination
  by (relation "measure length") (auto dest: skip_angle_length)

text \<open>
  The name of one matched column. The statement \<^verbatim>\<open>re.sub(' +', ' ', used_metric)\<close> of the
  script drops its result, so it changes nothing and has no counterpart here.
\<close>

definition metric_name :: "string \<Rightarrow> string \<Rightarrow> error + string" where
  "metric_name metric key =
     (case rewrite_key key of
        Inl err \<Rightarrow> Inl err
      | Inr u0 \<Rightarrow>
          let u = py_strip u0 in
          if metric \<in> set [''ap'', ''ar''] then
            (case digit_span u of
               None \<Rightarrow> Inr u
             | Some (l, r) \<Rightarrow>
                 (case py_int (take (r - l) (drop l u)) of
                    Inl err \<Rightarrow> Inl err
                  | Inr n \<Rightarrow>
                      (case str_hundredths n of
                         Inl err \<Rightarrow> Inl err
                       | Inr t \<Rightarrow> Inr (take l u @ ''@'' @ t @ drop r u))))
          else Inr u)"

text \<open>
  The inner loop \<^verbatim>\<open>for metric in all_metrics\<close> up to its \<^verbatim>\<open>break\<close>: the first term of the
  vocabulary that matches the key.
\<close>

fun first_metric :: "string list \<Rightarrow> string \<Rightarrow> string option" where
  "first_metric [] key = None"
| "first_metric (metric # metrics) key =
     (if metric_in_key metric key then Some metric else first_metric metrics key)"

text \<open>The loop over \<^verbatim>\<open>enumerate(keys)\<close>, from index \<open>idx\<close> on.\<close>

fun collate_from :: "nat \<Rightarrow> string list \<Rightarrow> error + (string list \<times> nat list)" where
  "collate_from idx [] = Inr ([], [])"
| "collate_from idx (key # keys) =
     (if key \<in> set non_metric_columns then collate_from (Suc idx) keys
      else
        (case first_metric all_metrics key of
           None \<Rightarrow> collate_from (Suc idx) keys
         | Some metric \<Rightarrow>
             (case metric_name metric key of
                Inl err \<Rightarrow> Inl err
              | Inr used_metric \<Rightarrow>
                  (case collate_from (Suc idx) keys of
                     Inl err \<Rightarrow> Inl err
                   | Inr (used_metrics, metric_idx) \<Rightarrow>
                       Inr (used_metric # used_metrics, idx # metric_idx)))))"

definition collate_metrics :: "string list \<Rightarrow> error + (string list \<times> nat list)" where
  "collate_metrics keys = collate_from 0 keys"


section \<open>Python values used by \<^verbatim>\<open>parse_md\<close>\<close>

subsection \<open>Sequencing of operations that can raise\<close>

definition and_then :: "error + 'a \<Rightarrow> ('a \<Rightarrow> error + 'b) \<Rightarrow> error + 'b" where
  "and_then r f = (case r of Inl err \<Rightarrow> Inl err | Inr x \<Rightarrow> f x)"

text \<open>\<^verbatim>\<open>xs[k]\<close> for an index \<open>k \<ge> 0\<close>.\<close>

definition py_nth :: "'a list \<Rightarrow> nat \<Rightarrow> error + 'a" where
  "py_nth xs k = (if k < length xs then Inr (xs ! k) else Inl IndexError)"

text \<open>\<^verbatim>\<open>xs.index(x)\<close>, with \<open>None\<close> where Python raises \<open>ValueError\<close>.\<close>

fun list_index :: "'a list \<Rightarrow> 'a \<Rightarrow> nat option" where
  "list_index [] x = None"
| "list_index (y # ys) x = (if y = x then Some 0 else map_option Suc (list_index ys x))"

text \<open>\<^verbatim>\<open>s[left:right]\<close> for \<open>0 \<le> left\<close>, \<open>0 \<le> right\<close>.\<close>

definition slice :: "string \<Rightarrow> nat \<Rightarrow> nat \<Rightarrow> string" where
  "slice s left right = take (right - left) (drop left s)"

subsection \<open>\<^verbatim>\<open>str.replace\<close>\<close>

text \<open>\<^verbatim>\<open>s.replace(old, new, 1)\<close> for a non-empty \<open>old\<close>.\<close>

fun replace_first :: "string \<Rightarrow> string \<Rightarrow> string \<Rightarrow> string" where
  "replace_first old new [] = []"
| "replace_first old new (c # cs) =
     (if prefix old (c # cs) then new @ drop (length old) (c # cs)
      else c # replace_first old new cs)"

text \<open>\<^verbatim>\<open>s.replace(old, new)\<close> for a non-empty \<open>old\<close>: every occurrence, left to right.\<close>

function replace_all :: "string \<Rightarrow> string \<Rightarrow> string \<Rightarrow> string" where
  "replace_all old new [] = []"
| "replace_all old new (c # cs) =
     (if old \<noteq> [] \<and> prefix old (c # cs)
      then new @ replace_all old new (drop (length old) (c # cs))
      else c # replace_all old new cs)"
  by pat_completeness auto
termination
  by (relation "measure (\<lambda>(old, new, s). length s)") auto

subsection \<open>\<^verbatim>\<open>os.path\<close> (POSIX)\<close>

text \<open>\<^verbatim>\<open>osp.basename(p)\<close>.\<close>

definition basename :: "string \<Rightarrow> string" where
  "basename p = (case py_rfind ''/'' p of None \<Rightarrow> p | Some k \<Rightarrow> drop (Suc k) p)"

text \<open>
  \<^verbatim>\<open>osp.splitext(p)\<close>: the extension starts at the last dot, when that dot stands in the
  last component of the path after a character of that component that is not a dot.
\<close>

definition splitext :: "string \<Rightarrow> string \<times> string" where
  "splitext p =
     (let filenameIndex = (case py_rfind ''/'' p of None \<Rightarrow> 0 | Some k \<Rightarrow> Suc k) in
      case py_rfind ''.'' p of
        None \<Rightarrow> (p, [])
      | Some dotIndex \<Rightarrow>
          if filenameIndex \<le> dotIndex \<and>
             (\<exists>c \<in> set (slice p filenameIndex dotIndex). c \<noteq> CHR ''.'')
          then (take dotIndex p, drop dotIndex p)
          else (p, []))"

text \<open>\<^verbatim>\<open>osp.join(a, b)\<close> for a relative \<open>b\<close>.\<close>

definition join :: "string \<Rightarrow> string \<Rightarrow> string" where
  "join a b = (if a = [] \<or> last a = CHR ''/'' then a @ b else a @ ''/'' @ b)"

text \<open>
  One split from the right at \<open>/\<close>: what stands before the last \<open>/\<close>.
  \<^verbatim>\<open>p.rsplit('/', 3)[0]\<close> is three of them.
\<close>

definition cut_last :: "string \<Rightarrow> string" where
  "cut_last p = (case py_rfind ''/'' p of None \<Rightarrow> p | Some k \<Rightarrow> take k p)"

definition rsplit3_head :: "string \<Rightarrow> string" where
  "rsplit3_head p = cut_last (cut_last (cut_last p))"

subsection \<open>Lines of a text file\<close>

definition newline :: char where
  "newline = CHR 0x0A"

text \<open>\<^verbatim>\<open>f.readlines()\<close>: the lines of the text, each with its newline.\<close>

fun readlines :: "string \<Rightarrow> string list" where
  "readlines [] = []"
| "readlines (c # cs) =
     (if c = newline then [c] # readlines cs
      else (case readlines cs of [] \<Rightarrow> [[c]] | l # ls \<Rightarrow> (c # l) # ls))"

text \<open>\<^verbatim>\<open>f.readline()\<close> on a file just opened.\<close>

definition readline :: "string \<Rightarrow> string" where
  "readline text = (case readlines text of [] \<Rightarrow> [] | l # ls \<Rightarrow> l)"

subsection \<open>\<^verbatim>\<open>float(s)\<close>\<close>

text \<open>
  A binary64 number: \<open>Finite negative m e\<close> is \<open>m * 2 ^ e\<close> with its sign, where
  \<open>2 ^ 52 \<le> m < 2 ^ 53\<close> for a normal number, \<open>m < 2 ^ 52\<close> and \<open>e = - 1074\<close> for a subnormal
  one, and \<open>m = 0\<close>, \<open>e = 0\<close> for zero.
\<close>

datatype pyfloat = Finite bool nat int | Infinite bool | NaN

text \<open>
  The number nearest to the fraction \<open>a / b > 0\<close>, ties to the even mantissa; below the
  normal range the exponent stays at \<open>- 1074\<close>, and above the largest number the result
  is infinite.
\<close>

definition nearest_double :: "bool \<Rightarrow> nat \<Rightarrow> nat \<Rightarrow> pyfloat" where
  "nearest_double negative a b =
     (let e1 = int (nbits a) - int (nbits b) - 53;
          e2 = (if a * pow2 (- e1) < 2 ^ 53 * (b * pow2 e1) then e1 else e1 + 1);
          e = max e2 (- 1074);
          m = round_half_even (a * pow2 (- e)) (b * pow2 e)
      in if m = 0 then Finite negative 0 0
         else if m = 2 ^ 53 then
           (if 971 < e + 1 then Infinite negative else Finite negative (2 ^ 52) (e + 1))
         else if 971 < e then Infinite negative
         else Finite negative m e)"

text \<open>
  The grammar \<^verbatim>\<open>float()\<close> accepts after stripping white space: a sign, then \<open>inf\<close>,
  \<open>infinity\<close> or \<open>nan\<close> in any letter case, or digits with at most one point and an
  exponent, where single underscores may stand between digits.
\<close>

definition digitpart :: "string \<Rightarrow> bool" where
  "digitpart s =
     (s \<noteq> [] \<and> is_digit (hd s) \<and> is_digit (last s) \<and>
      (\<forall>c \<in> set s. is_digit c \<or> c = CHR ''_'') \<and> \<not> contains ''__'' s)"

definition unsigned :: "string \<Rightarrow> string" where
  "unsigned s = (case s of [] \<Rightarrow> [] | c # cs \<Rightarrow> if c = CHR ''+'' \<or> c = CHR ''-'' then cs else s)"

definition mantissa :: "string \<Rightarrow> bool" where
  "mantissa s =
     (let ip = takeWhile (\<lambda>c. c \<noteq> CHR ''.'') s;
          rest = dropWhile (\<lambda>c. c \<noteq> CHR ''.'') s
      in if rest = [] then digitpart ip
         else (ip = [] \<and> digitpart (tl rest)) \<or>
              (digitpart ip \<and> (tl rest = [] \<or> digitpart (tl rest))))"

definition float_text :: "string \<Rightarrow> bool" where
  "float_text s =
     (let u = unsigned s;
          m = takeWhile (\<lambda>c. c \<noteq> CHR ''e'' \<and> c \<noteq> CHR ''E'') u;
          ex = dropWhile (\<lambda>c. c \<noteq> CHR ''e'' \<and> c \<noteq> CHR ''E'') u
      in lower u \<in> set [''inf'', ''infinity'', ''nan''] \<or>
         (mantissa m \<and> (ex = [] \<or> digitpart (unsigned (tl ex)))))"

text \<open>The value of a text of that grammar: the digits \<open>d\<close> and the power of ten \<open>p\<close>.\<close>

definition float_value :: "string \<Rightarrow> pyfloat" where
  "float_value s =
     (let negative = (take 1 s = ''-'');
          u = unsigned s;
          m = takeWhile (\<lambda>c. c \<noteq> CHR ''e'' \<and> c \<noteq> CHR ''E'') u;
          ex = dropWhile (\<lambda>c. c \<noteq> CHR ''e'' \<and> c \<noteq> CHR ''E'') u;
          ip = filter is_digit (takeWhile (\<lambda>c. c \<noteq> CHR ''.'') m);
          fp = filter is_digit (dropWhile (\<lambda>c. c \<noteq> CHR ''.'') m);
          d = int_of_digits (ip @ fp);
          x = int (int_of_digits (filter is_digit ex));
          p = (if take 1 (drop 1 ex) = ''-'' then - x else x) - int (length fp)
      in if lower u = ''nan'' then NaN
         else if lower u \<in> set [''inf'', ''infinity''] then Infinite negative
         else if d = 0 then Finite negative 0 0
         else nearest_double negative (d * 10 ^ nat p) (10 ^ nat (- p)))"

text \<open>
  The white space \<^verbatim>\<open>float()\<close> strips: that of \<^verbatim>\<open>str.strip()\<close> without the four separators
  \<open>0x1C\<close> to \<open>0x1F\<close>.
\<close>

definition float_whitespace :: string where
  "float_whitespace =
     [CHR 0x09, CHR 0x0A, CHR 0x0B, CHR 0x0C, CHR 0x0D, CHR 0x20, CHR 0x85, CHR 0xA0]"

definition py_float :: "string \<Rightarrow> error + pyfloat" where
  "py_float s =
     (let t = strip_chars float_whitespace s in
      if float_text t then Inr (float_value t) else Inl ValueError)"

subsection \<open>\<^verbatim>\<open>re.findall(r'<a href="(.*)">(.*)</a>', line)[0]\<close>\<close>

definition dquote :: char where
  "dquote = CHR 0x22"

text \<open>
  A match that starts right before \<open>s\<close>, after \<^verbatim>\<open><a href="\<close>. A dot matches any character
  but a newline, and both groups are greedy: the anchor text ends at the last \<^verbatim>\<open></a>\<close> of
  the line, and the URL at the last \<^verbatim>\<open>">\<close> before it.
\<close>

definition anchor_at :: "string \<Rightarrow> (string \<times> string) option" where
  "anchor_at s =
     (let seg = takeWhile (\<lambda>c. c \<noteq> newline) s in
      case py_rfind ''</a>'' seg of
        None \<Rightarrow> None
      | Some r \<Rightarrow>
          (case py_rfind [dquote, CHR ''>''] (take r seg) of
             None \<Rightarrow> None
           | Some q \<Rightarrow> Some (take q seg, slice seg (q + 2) r)))"

text \<open>The first match in the line, or \<open>None\<close> when \<^verbatim>\<open>findall\<close> gives the empty list.\<close>

fun first_anchor :: "string \<Rightarrow> (string \<times> string) option" where
  "first_anchor [] = None"
| "first_anchor (c # cs) =
     (if prefix (''<a href='' @ [dquote]) (c # cs) then
        (case anchor_at (drop 9 (c # cs)) of
           Some m \<Rightarrow> Some m
         | None \<Rightarrow> first_anchor cs)
      else first_anchor cs)"

text \<open>
  What the normalizer promises of one returned pair: \<open>i\<close> is a column of the header row,
  not one of the four non-metric columns, and \<open>name\<close> is the name that the first matching
  term of the vocabulary gives to that column.
\<close>

definition column_ok :: "string list \<Rightarrow> nat \<Rightarrow> string \<Rightarrow> bool" where
  "column_ok keys i name =
     (i < length keys \<and> keys ! i \<notin> set non_metric_columns \<and>
      (\<exists>metric. first_metric all_metrics (keys ! i) = Some metric \<and>
         metric_name metric (keys ! i) = Inr name))"

text \<open>
  The rewriting of a header as the specification words it: every span from a \<open><\<close> to the
  next \<open>>\<close> is removed, and \<open>*\<close> and \<open>_\<close> become spaces. The flag says whether the
  text read so far ends inside a span.
\<close>

fun spec_rewrite_from :: "bool \<Rightarrow> string \<Rightarrow> string" where
  "spec_rewrite_from inside [] = []"
| "spec_rewrite_from True (c # cs) =
     (if c = CHR ''>'' then spec_rewrite_from False cs else spec_rewrite_from True cs)"
| "spec_rewrite_from False (c # cs) =
     (if c = CHR ''<'' then spec_rewrite_from True cs
      else (if c = CHR ''*'' \<or> c = CHR ''_'' then CHR '' '' else c) # spec_rewrite_from False cs)"

definition spec_rewrite :: "string \<Rightarrow> string" where
  "spec_rewrite key = spec_rewrite_from False key"

section \<open>\<^verbatim>\<open>parse_md\<close>: from the lines of a document to its records\<close>

subsection \<open>The records written to the YAML file\<close>

text \<open>
  The dictionaries of the script, with their keys in the order the script inserts them.
  \<open>Metrics\<close> is a dictionary filled in a loop: an association list, updated in place when a
  key comes again.
\<close>

record collection =
  Name :: string
  Architecture :: "string list"
  README :: string
  Paper :: "string list"

record metadata =
  Training_Data :: string
  FLOPs :: "pyfloat option"
  Parameters :: "pyfloat option"

record result_entry =
  Task :: string
  Dataset :: string
  Metrics :: "(string \<times> pyfloat) list"

record model =
  model_name :: string
  In_Collection :: string
  Config :: string
  Metadata :: metadata
  Results :: "result_entry list"
  Weights :: string

subsection \<open>The header row of a table\<close>

text \<open>
  What the script computes from the header row. \<open>flops_idx\<close> and \<open>params_idx\<close> are \<open>None\<close>
  where the script sets them to \<open>-1\<close>.
\<close>

record table =
  config_idx :: nat
  ckpt_idx :: nat
  flops_idx :: "nat option"
  params_idx :: "nat option"
  metric_name_list :: "string list"
  metric_idx_list :: "nat list"

definition header_cols :: "string \<Rightarrow> string list" where
  "header_cols line = butlast (tl (map py_strip (split_on (CHR ''|'') line)))"

definition parse_header :: "string \<Rightarrow> error + table" where
  "parse_header line =
     (let cols = header_cols line in
      case list_index cols ''Arch'' of
        None \<Rightarrow> Inl ValueError
      | Some config \<Rightarrow>
          (case list_index cols ''ckpt'' of
             None \<Rightarrow> Inl ValueError
           | Some ckpt \<Rightarrow>
               (case collate_metrics cols of
                  Inl err \<Rightarrow> Inl err
                | Inr (names, idxs) \<Rightarrow>
                    Inr \<lparr>config_idx = config, ckpt_idx = ckpt,
                         flops_idx = list_index cols ''FLOPs'',
                         params_idx = list_index cols ''Params'',
                         metric_name_list = names, metric_idx_list = idxs\<rparr>)))"

subsection \<open>One data row\<close>

text \<open>The cells of a data row: \<^verbatim>\<open>lines[j].split('|')[1:-1]\<close>.\<close>

definition row_cells :: "string \<Rightarrow> string list" where
  "row_cells line = butlast (tl (split_on (CHR ''|'') line))"

text \<open>
  The target of the Markdown link of a cell: the text between the first \<^verbatim>\<open>](\<close> and the
  first \<^verbatim>\<open>)\<close> after it. Both \<^verbatim>\<open>index\<close> calls raise \<open>ValueError\<close> when they find nothing.
\<close>

definition link_target :: "string \<Rightarrow> error + string" where
  "link_target cell =
     and_then (py_index '']('' cell) (\<lambda>k.
     and_then (py_index_from '')'' cell (k + 2)) (\<lambda>right.
     Inr (slice cell (k + 2) right)))"

text \<open>
  \<^verbatim>\<open>osp.splitext(config)[0].replace('configs/', '', 1).replace('/', '--')\<close>.
\<close>

definition model_name_of :: "string \<Rightarrow> string" where
  "model_name_of config =
     replace_all ''/'' ''--'' (replace_first ''configs/'' [] (fst (splitext config)))"

text \<open>\<^verbatim>\<open>float(line[idx])\<close> for an optional column.\<close>

definition optional_float :: "string list \<Rightarrow> nat option \<Rightarrow> error + pyfloat option" where
  "optional_float cells idx =
     (case idx of
        None \<Rightarrow> Inr None
      | Some k \<Rightarrow> and_then (py_nth cells k) (\<lambda>cell. and_then (py_float cell) (\<lambda>v. Inr (Some v))))"

text \<open>The loop over \<^verbatim>\<open>zip(metric_name_list, metric_idx_list)\<close> that fills \<^verbatim>\<open>metrics\<close>.\<close>

fun read_metrics ::
  "string list \<Rightarrow> (string \<times> nat) list \<Rightarrow> (string \<times> pyfloat) list
     \<Rightarrow> error + (string \<times> pyfloat) list" where
  "read_metrics cells [] metrics = Inr metrics"
| "read_metrics cells ((name, idx) # rest) metrics =
     and_then (py_nth cells idx) (\<lambda>cell.
     and_then (py_float cell) (\<lambda>v.
     read_metrics cells rest (AList.update name v metrics)))"

text \<open>
  The body of the loop over the data rows, for one row: \<open>None\<close> when the row is skipped
  (\<^verbatim>\<open>continue\<close>), the record otherwise. \<open>dataset\<close> is \<open>None\<close> while the variable of that name
  is unbound; reading it then raises \<open>UnboundLocalError\<close>.
\<close>

definition parse_row ::
  "string \<Rightarrow> string \<Rightarrow> table \<Rightarrow> string option \<Rightarrow> string \<Rightarrow> error + model option" where
  "parse_row collection_name task tb dataset row =
     (let line = row_cells row in
      and_then (py_nth line (config_idx tb)) (\<lambda>arch.
      if py_find '']('' arch = None then Inr None
      else
        and_then (link_target arch) (\<lambda>target.
        let config = strip_chars ''./'' target in
        and_then (py_nth line (ckpt_idx tb)) (\<lambda>ckpt_cell.
        and_then (link_target ckpt_cell) (\<lambda>ckpt.
        and_then (case dataset of None \<Rightarrow> Inl UnboundLocalError | Some d \<Rightarrow> Inr d) (\<lambda>d.
        and_then (optional_float line (flops_idx tb)) (\<lambda>flops.
        and_then (optional_float line (params_idx tb)) (\<lambda>params.
        and_then (read_metrics line (zip (metric_name_list tb) (metric_idx_list tb)) [])
          (\<lambda>metrics.
        Inr (Some
          \<lparr>model_name = model_name_of config,
           In_Collection = collection_name,
           Config = config,
           Metadata = \<lparr>Training_Data = d, FLOPs = flops, Parameters = params\<rparr>,
           Results = [\<lparr>Task = task, Dataset = d, Metrics = metrics\<rparr>],
           Weights = ckpt\<rparr>))))))))))"

text \<open>
  The loop \<^verbatim>\<open>while j < len(lines) and lines[j][0] == '|'\<close>; it returns the index of the
  first line after the table and the list of models. \<^verbatim>\<open>lines[j][0]\<close> raises \<open>IndexError\<close> on
  an empty line.
\<close>

function parse_rows ::
  "string \<Rightarrow> string \<Rightarrow> table \<Rightarrow> string option \<Rightarrow> string list \<Rightarrow> nat \<Rightarrow> model list
     \<Rightarrow> error + (nat \<times> model list)" where
  "parse_rows collection_name task tb dataset lines j models =
     (if j < length lines then
        (case lines ! j of
           [] \<Rightarrow> Inl IndexError
         | c # cs \<Rightarrow>
             if c = CHR ''|'' then
               (case parse_row collection_name task tb dataset (lines ! j) of
                  Inl err \<Rightarrow> Inl err
                | Inr None \<Rightarrow>
                    parse_rows collection_name task tb dataset lines (j + 1) models
                | Inr (Some m) \<Rightarrow>
                    parse_rows collection_name task tb dataset lines (j + 1) (models @ [m]))
             else Inr (j, models))
      else Inr (j, models))"
  by pat_completeness auto
termination
  by (relation "measure (\<lambda>(collection_name, task, tb, dataset, lines, j, models).
        length lines - j)") auto

declare parse_rows.simps [simp del]

lemma parse_rows_advances:
  "parse_rows collection_name task tb dataset lines j models = Inr (j', models') \<Longrightarrow> j \<le> j'"
proof (induction collection_name task tb dataset lines j models
    rule: parse_rows.induct)
  case (1 collection_name task tb dataset lines j models)
  show ?case
  proof (cases "j < length lines")
    case False
    then show ?thesis using "1.prems" by (simp add: parse_rows.simps)
  next
    case True
    then show ?thesis
      using "1.prems" "1.IH"
      by (subst (asm) parse_rows.simps)
        (fastforce split: list.splits if_splits sum.splits option.splits)
  qed
qed

subsection \<open>The loop over the lines\<close>

text \<open>
  The variables the loop changes: the two lists of the collection, the variable
  \<^verbatim>\<open>dataset\<close> (\<open>None\<close> while it is unbound) and the list \<^verbatim>\<open>models\<close>.
\<close>

record pstate =
  st_Architecture :: "string list"
  st_Paper :: "string list"
  st_dataset :: "string option"
  st_models :: "model list"

text \<open>
  One turn of the loop \<^verbatim>\<open>while i < len(lines)\<close>, for \<open>i < length lines\<close>: the next value
  of \<open>i\<close> and the new state.
\<close>

definition parse_step ::
  "string \<Rightarrow> string \<Rightarrow> string list \<Rightarrow> nat \<Rightarrow> pstate \<Rightarrow> error + (nat \<times> pstate)" where
  "parse_step collection_name task lines i st =
     (let line = lines ! i in
      if take 2 line = ''<!'' then
        and_then (py_nth lines (i + 3)) (\<lambda>anchor_line.
        case first_anchor anchor_line of
          None \<Rightarrow> Inl IndexError
        | Some (url, text) \<Rightarrow>
            let name = py_strip (takeWhile (\<lambda>c. c \<noteq> CHR ''('') text);
                arch = (contains ''ALGORITHM'' line \<or> contains ''BACKBONE'' line)
            in Inr (i + 4,
                 st\<lparr>st_Architecture :=
                      (if arch then st_Architecture st @ [name] else st_Architecture st),
                    st_dataset :=
                      (if \<not> arch \<and> contains ''DATASET'' line then Some name
                       else st_dataset st),
                    st_Paper := st_Paper st @ [url]\<rparr>))
      else
        (case line of
           [] \<Rightarrow> Inl IndexError
         | c # cs \<Rightarrow>
             if c = CHR ''|'' \<and> i + 1 < length lines \<and> take 3 (lines ! (i + 1)) = ''| :'' then
               and_then (parse_header line) (\<lambda>tb.
               and_then (parse_rows collection_name task tb (st_dataset st) lines (i + 2)
                           (st_models st)) (\<lambda>(j, models).
               Inr (j, st\<lparr>st_models := models\<rparr>)))
             else Inr (i + 1, st)))"

lemma parse_step_advances:
  "parse_step collection_name task lines i st = Inr (i', st') \<Longrightarrow> i < i'"
  by (auto simp: parse_step_def and_then_def Let_def
      split: if_splits sum.splits option.splits list.splits prod.splits
      dest!: parse_rows_advances)

function parse_loop ::
  "string \<Rightarrow> string \<Rightarrow> string list \<Rightarrow> nat \<Rightarrow> pstate \<Rightarrow> error + pstate" where
  "parse_loop collection_name task lines i st =
     (if i < length lines then
        (case parse_step collection_name task lines i st of
           Inl err \<Rightarrow> Inl err
         | Inr (i', st') \<Rightarrow> parse_loop collection_name task lines i' st')
      else Inr st)"
  by pat_completeness auto
termination
  by (relation "measure (\<lambda>(collection_name, task, lines, i, st). length lines - i)")
    (auto dest: parse_step_advances)

declare parse_loop.simps [simp del]

definition initial_state :: pstate where
  "initial_state = \<lparr>st_Architecture = [], st_Paper = [], st_dataset = None, st_models = []\<rparr>"

text \<open>The dictionary \<^verbatim>\<open>result\<close> that \<^verbatim>\<open>parse_md\<close> dumps: its single collection and its models.\<close>

definition parse_lines ::
  "string \<Rightarrow> string \<Rightarrow> string \<Rightarrow> string list \<Rightarrow> error + (collection \<times> model list)" where
  "parse_lines collection_name readme task lines =
     (case parse_loop collection_name task lines 0 initial_state of
        Inl err \<Rightarrow> Inl err
      | Inr st \<Rightarrow>
          Inr (\<lparr>Name = collection_name, Architecture = st_Architecture st,
                README = readme, Paper = st_Paper st\<rparr>,
               st_models st))"

text \<open>
  The states of the loop: \<open>reaches collection_name task lines i st\<close> says that the loop,
  started at line \<open>0\<close> in the initial state, arrives at line \<open>i\<close> in state \<open>st\<close>, that is,
  it encounters line \<open>i\<close> as the start of an annotation block, of a table or of a line it
  passes over.
\<close>

inductive reaches :: "string \<Rightarrow> string \<Rightarrow> string list \<Rightarrow> nat \<Rightarrow> pstate \<Rightarrow> bool"
  for collection_name task lines where
  start: "reaches collection_name task lines 0 initial_state"
| step: "reaches collection_name task lines i st \<Longrightarrow> i < length lines \<Longrightarrow>
         parse_step collection_name task lines i st = Inr (i', st') \<Longrightarrow>
         reaches collection_name task lines i' st'"

text \<open>An annotation line that sets the dataset, as the specification words it.\<close>

definition dataset_annotation :: "string \<Rightarrow> bool" where
  "dataset_annotation line = (take 2 line = ''<!'' \<and> sublist ''DATASET'' line)"

text \<open>
  The error that a row with \<^verbatim>\<open>](\<close> in its \<open>Arch\<close> cell \<open>arch\<close> raises while \<^verbatim>\<open>dataset\<close> is
  unbound, in the order in which the script evaluates the row: the link of the \<open>Arch\<close>
  cell, the \<open>ckpt\<close> cell, its link, and then the variable \<^verbatim>\<open>dataset\<close>.
\<close>

definition row_error_unbound :: "table \<Rightarrow> string \<Rightarrow> string \<Rightarrow> error" where
  "row_error_unbound tb row arch =
     (case link_target arch of
        Inl err \<Rightarrow> ValueError
      | Inr target \<Rightarrow>
          (case py_nth (row_cells row) (ckpt_idx tb) of
             Inl err \<Rightarrow> IndexError
           | Inr ckpt_cell \<Rightarrow>
               (case link_target ckpt_cell of
                  Inl err \<Rightarrow> ValueError
                | Inr ckpt \<Rightarrow> UnboundLocalError)))"

section \<open>The run: files, \<^verbatim>\<open>parse_md\<close>, \<^verbatim>\<open>update_model_index\<close> and the main block\<close>

subsection \<open>What the script takes from its environment\<close>

text \<open>
  \<open>root\<close> is \<^verbatim>\<open>MMPOSE_ROOT\<close>; \<open>relpath p\<close> is \<^verbatim>\<open>osp.relpath(p, MMPOSE_ROOT)\<close>, which depends on
  the working directory; \<open>dump_result\<close> and \<open>dump_index\<close> are the YAML texts that
  \<^verbatim>\<open>mmcv.dump(obj, f, file_format='yaml', sort_keys=False)\<close> writes for the dictionary of
  \<^verbatim>\<open>parse_md\<close> and for the dictionary of \<^verbatim>\<open>update_model_index\<close>.
\<close>

record env =
  root :: string
  relpath :: "string \<Rightarrow> string"
  dump_result :: "collection \<times> model list \<Rightarrow> string"
  dump_index :: "string list \<Rightarrow> string"

subsection \<open>Files\<close>

text \<open>
  The files are an association list from paths to texts; a path names one file, a read
  gives the text that the last write left, and nothing but the script writes. To open a
  file that is not there for reading raises \<open>FileNotFoundError\<close>. \<open>writes\<close>
  is a record of the run that the script does not keep: every write appends the path, the
  text the file had before (\<open>None\<close> when there was no file) and the text written.
\<close>

record world =
  files :: "(string \<times> string) list"
  writes :: "(string \<times> string option \<times> string) list"

definition read_file :: "world \<Rightarrow> string \<Rightarrow> error + string" where
  "read_file w path =
     (case map_of (files w) path of None \<Rightarrow> Inl FileNotFoundError | Some text \<Rightarrow> Inr text)"

definition write_file :: "string \<Rightarrow> string \<Rightarrow> world \<Rightarrow> world" where
  "write_file path text w =
     w\<lparr>files := AList.update path text (files w),
       writes := writes w @ [(path, map_of (files w) path, text)]\<rparr>"

text \<open>A write changed the content of its file: the text written is not the text before.\<close>

definition changed :: "string \<times> string option \<times> string \<Rightarrow> bool" where
  "changed entry = (case entry of (path, before, written) \<Rightarrow> before \<noteq> Some written)"

text \<open>
  The entries are the writes that lead from one list of files to another: each names the
  text its file had at that moment.
\<close>

fun replay ::
  "(string \<times> string option \<times> string) list \<Rightarrow> (string \<times> string) list
     \<Rightarrow> (string \<times> string) list option" where
  "replay [] fs = Some fs"
| "replay ((path, before, written) # entries) fs =
     (if map_of fs path = before then replay entries (AList.update path written fs) else None)"

subsection \<open>\<^verbatim>\<open>dump_yaml_and_check_difference\<close>\<close>

text \<open>
  \<open>text\<close> is the YAML text of the object. The script reads the file when it exists,
  writes the text, reads the file again and compares.
\<close>

definition dump_yaml_and_check_difference :: "string \<Rightarrow> string \<Rightarrow> world \<Rightarrow> bool \<times> world" where
  "dump_yaml_and_check_difference text path w =
     (let original = map_of (files w) path;
          w' = write_file path text w;
          is_different =
            (case original of
               None \<Rightarrow> True
             | Some orig \<Rightarrow>
                 (case map_of (files w') path of None \<Rightarrow> True | Some new \<Rightarrow> orig \<noteq> new))
      in (is_different, w'))"

subsection \<open>\<^verbatim>\<open>get_task_name\<close> and \<^verbatim>\<open>parse_md\<close>\<close>

definition readme_file :: "env \<Rightarrow> string \<Rightarrow> string" where
  "readme_file e md_file = join (rsplit3_head (relpath e md_file)) ''README.md''"

definition get_task_name :: "env \<Rightarrow> string \<Rightarrow> world \<Rightarrow> error + string" where
  "get_task_name e md_file w =
     and_then (read_file w (readme_file e md_file)) (\<lambda>text.
     Inr (py_strip (drop 2 (readline text))))"

text \<open>\<^verbatim>\<open>md_file[:-2] + 'yml'\<close>.\<close>

definition yml_file :: "string \<Rightarrow> string" where
  "yml_file md_file = take (length md_file - 2) md_file @ ''yml''"

text \<open>\<^verbatim>\<open>parse_md\<close> up to the dictionary \<^verbatim>\<open>result\<close>: it reads two files and writes none.\<close>

definition parse_doc :: "env \<Rightarrow> string \<Rightarrow> world \<Rightarrow> error + (collection \<times> model list)" where
  "parse_doc e md_file w =
     (let collection_name = fst (splitext (basename md_file)) in
      and_then (get_task_name e md_file w) (\<lambda>task.
      and_then (read_file w md_file) (\<lambda>text.
      parse_lines collection_name (relpath e md_file) task (readlines text))))"

definition parse_md :: "env \<Rightarrow> string \<Rightarrow> world \<Rightarrow> error + (bool \<times> world)" where
  "parse_md e md_file w =
     and_then (parse_doc e md_file w) (\<lambda>result.
     Inr (dump_yaml_and_check_difference (dump_result e result) (yml_file md_file) w))"

subsection \<open>\<^verbatim>\<open>update_model_index\<close>\<close>

text \<open>
  The paths that \<^verbatim>\<open>glob(osp.join(configs_dir, '**', '*.yml'), recursive=True)\<close> finds: below
  \<open>configs_dir\<close>, with no empty and no hidden component, the last one ending in \<open>.yml\<close>.
\<close>

definition glob_yml :: "string \<Rightarrow> string \<Rightarrow> bool" where
  "glob_yml configs_dir path =
     (prefix (configs_dir @ ''/'') path \<and>
      (let parts = split_on (CHR ''/'') (drop (length configs_dir + 1) path) in
       (\<forall>part \<in> set parts. part \<noteq> [] \<and> hd part \<noteq> CHR ''.'') \<and>
       suffix ''.yml'' (last parts)))"

definition model_index_file :: "env \<Rightarrow> string" where
  "model_index_file e = join (root e) ''model-index.yml''"

definition model_index :: "env \<Rightarrow> world \<Rightarrow> string list" where
  "model_index e w =
     map (relpath e) (sort (filter (glob_yml (join (root e) ''configs'')) (map fst (files w))))"

definition update_model_index :: "env \<Rightarrow> world \<Rightarrow> bool \<times> world" where
  "update_model_index e w =
     dump_yaml_and_check_difference (dump_index e (model_index e w)) (model_index_file e) w"

subsection \<open>The main block\<close>

text \<open>
  The loop \<^verbatim>\<open>for fn in file_list: file_modified |= parse_md(fn)\<close>. An exception ends it:
  the files stay as they are at that moment.
\<close>

fun parse_files :: "env \<Rightarrow> string list \<Rightarrow> bool \<Rightarrow> world \<Rightarrow> world \<times> (error + bool)" where
  "parse_files e [] file_modified w = (w, Inr file_modified)"
| "parse_files e (fn # fns) file_modified w =
     (case parse_md e fn w of
        Inl err \<Rightarrow> (w, Inl err)
      | Inr (is_different, w') \<Rightarrow> parse_files e fns (file_modified \<or> is_different) w')"

definition file_list :: "string list \<Rightarrow> string list" where
  "file_list args = filter (\<lambda>fn. basename fn \<noteq> ''README.md'') args"

text \<open>
  The run on the arguments \<^verbatim>\<open>sys.argv[1:]\<close>: the files after it, and the exception that
  ended it or the argument of \<^verbatim>\<open>exit\<close>.
\<close>

definition main :: "env \<Rightarrow> string list \<Rightarrow> world \<Rightarrow> world \<times> (error + nat)" where
  "main e args w =
     (if file_list args = [] then (w, Inr 0)
      else
        (case parse_files e (file_list args) False w of
           (w', Inl err) \<Rightarrow> (w', Inl err)
         | (w', Inr file_modified) \<Rightarrow>
             (case update_model_index e w' of
                (is_different, w'') \<Rightarrow>
                  (w'', Inr (if file_modified \<or> is_different then 1 else 0)))))"

text \<open>
  The exit status of the process: an exception that nothing catches ends the interpreter
  with status 1.
\<close>

definition exit_status :: "error + nat \<Rightarrow> nat" where
  "exit_status r = (case r of Inl err \<Rightarrow> 1 | Inr status \<Rightarrow> status)"

subsection \<open>Malformed documents, as the specification words them\<close>

text \<open>
  An annotation line whose fourth line is missing or holds no anchor, and the header row
  of a table (a line that starts with \<open>|\<close>, before a line that starts with \<^verbatim>\<open>| :\<close>) without a
  column named \<open>Arch\<close> or without a column named \<open>ckpt\<close>.
\<close>

definition malformed_annotation :: "string list \<Rightarrow> nat \<Rightarrow> bool" where
  "malformed_annotation lines i =
     (take 2 (lines ! i) = ''<!'' \<and>
      (length lines \<le> i + 3 \<or> first_anchor (lines ! (i + 3)) = None))"

definition table_missing_column :: "string list \<Rightarrow> nat \<Rightarrow> bool" where
  "table_missing_column lines i =
     (take 1 (lines ! i) = ''|'' \<and> i + 1 < length lines \<and>
      take 3 (lines ! (i + 1)) = ''| :'' \<and>
      (''Arch'' \<notin> set (header_cols (lines ! i)) \<or> ''ckpt'' \<notin> set (header_cols (lines ! i))))"

subsection \<open>Notions for the statements about runs\<close>

text \<open>The writes \<open>entries\<close> lead from the files of \<open>w\<close> to the files of \<open>w'\<close>.\<close>

definition run_log ::
  "world \<Rightarrow> world \<Rightarrow> (string \<times> string option \<times> string) list \<Rightarrow> bool" where
  "run_log w w' entries =
     (writes w' = writes w @ entries \<and> replay entries (files w) = Some (files w'))"

text \<open>The same write once more: the file holds the text already.\<close>

definition again :: "string \<times> string option \<times> string \<Rightarrow> string \<times> string option \<times> string" where
  "again entry = (case entry of (path, before, written) \<Rightarrow> (path, Some written, written))"

text \<open>Two lists of files hold the same text at every path that ends in \<open>md\<close>.\<close>

definition same_documents :: "(string \<times> string) list \<Rightarrow> (string \<times> string) list \<Rightarrow> bool" where
  "same_documents fs fs' = (\<forall>path. suffix ''md'' path \<longrightarrow> map_of fs path = map_of fs' path)"

text \<open>The text that \<^verbatim>\<open>parse_md\<close> writes for a document, when it parses.\<close>

definition output_text :: "env \<Rightarrow> world \<Rightarrow> string \<Rightarrow> string" where
  "output_text e w md_file =
     (case parse_doc e md_file w of Inl err \<Rightarrow> [] | Inr result \<Rightarrow> dump_result e result)"

section \<open>Example inputs\<close>

text \<open>A header row with the columns \<open>Arch\<close> and \<open>ckpt\<close>, as \<^verbatim>\<open>parse_header\<close> reads it.\<close>

definition example_table :: table where
  "example_table =
     \<lparr>config_idx = 0, ckpt_idx = 1, flops_idx = None, params_idx = None,
      metric_name_list = [], metric_idx_list = []\<rparr>"

text \<open>Two data rows: the first has no link in its \<open>Arch\<close> cell.\<close>

definition example_rows :: "string list" where
  "example_rows =
  [''| plain | x |'' @ [newline],
   ''| [a](configs/a/b.py) | [c](u) |'' @ [newline]]"

text \<open>An annotation block of type \<open>DATASET\<close>.\<close>

definition example_annotation :: "string list" where
  "example_annotation =
  [''<!-- [DATASET] -->'' @ [newline],
   [newline],
   ''<details>'' @ [newline],
   ''<summary align='' @ [dquote] @ ''right'' @ [dquote] @ ''><a href='' @ [dquote] @ ''http://coco.url'' @ [dquote] @ ''>COCO (ECCV 2014)</a></summary>'' @ [newline]]"

text \<open>A data row with links in both cells, and the record it yields under \<open>example_table\<close>.\<close>

definition example_row :: string where
  "example_row = ''| [res50](configs/body/2d_kpt/foo/bar.py) | [ckpt](https://dl/x.pth) |'' @ [newline]"

definition example_model :: model where
  "example_model =
     \<lparr>model_name = ''body--2d_kpt--foo--bar'', In_Collection = ''c'',
      Config = ''configs/body/2d_kpt/foo/bar.py'',
      Metadata = \<lparr>Training_Data = ''COCO'', FLOPs = None, Parameters = None\<rparr>,
      Results = [\<lparr>Task = ''t'', Dataset = ''COCO'', Metrics = []\<rparr>],
      Weights = ''https://dl/x.pth''\<rparr>"

text \<open>
  A document that is one table, with no annotation before it: its data row has links in
  both cells. The same with no link in the \<open>ckpt\<close> cell.
\<close>

definition example_table_only :: "string list" where
  "example_table_only =
  [''| Arch | ckpt |'' @ [newline],
   ''| :--- | :--: |'' @ [newline],
   ''| [res50](configs/body/2d_kpt/foo/bar.py) | [ckpt](https://dl/x.pth) |'' @ [newline]]"

definition example_bad_ckpt :: "string list" where
  "example_bad_ckpt =
  [''| Arch | ckpt |'' @ [newline],
   ''| :--- | :--: |'' @ [newline],
   ''| [res50](configs/body/2d_kpt/foo/bar.py) | none |'' @ [newline]]"

text \<open>
  A document with an \<open>ALGORITHM\<close> annotation and a table, and no \<open>DATASET\<close> annotation;
  the state of the loop after the annotation.
\<close>

definition example_no_dataset :: "string list" where
  "example_no_dataset =
  [''<!-- [ALGORITHM] -->'' @ [newline],
   [newline],
   ''<details>'' @ [newline],
   ''<summary align='' @ [dquote] @ ''right'' @ [dquote] @ ''><a href='' @ [dquote] @ ''http://alg.url'' @ [dquote] @ ''>DeepPose (CVPR 2014)</a></summary>'' @ [newline],
   ''| Arch | ckpt |'' @ [newline],
   ''| :--- | :--: |'' @ [newline],
   ''| plain | x |'' @ [newline],
   ''| [res50](configs/body/2d_kpt/foo/bar.py) | [ckpt](https://dl/x.pth) |'' @ [newline]]"

definition example_after_algorithm :: pstate where
  "example_after_algorithm =
     \<lparr>st_Architecture = [''DeepPose''], st_Paper = [''http://alg.url''],
      st_dataset = None, st_models = []\<rparr>"

text \<open>
  A document with a \<open>DATASET\<close> annotation and a table, and the collection that
  \<^verbatim>\<open>parse_md\<close> builds from it for the name \<open>c\<close> and the path \<open>r\<close>.
\<close>

definition example_with_dataset :: "string list" where
  "example_with_dataset =
  [''<!-- [DATASET] -->'' @ [newline],
   [newline],
   ''<details>'' @ [newline],
   ''<summary align='' @ [dquote] @ ''right'' @ [dquote] @ ''><a href='' @ [dquote] @ ''http://coco.url'' @ [dquote] @ ''>COCO (ECCV 2014)</a></summary>'' @ [newline],
   ''| Arch | ckpt |'' @ [newline],
   ''| :--- | :--: |'' @ [newline],
   ''| [res50](configs/body/2d_kpt/foo/bar.py) | [ckpt](https://dl/x.pth) |'' @ [newline]]"

definition example_collection :: collection where
  "example_collection =
     \<lparr>Name = ''c'', Architecture = [], README = ''r'', Paper = [''http://coco.url'']\<rparr>"

text \<open>
  An environment: the working directory is the root, so that \<open>relpath\<close> changes nothing;
  two texts that show the fields of the dumped dictionaries stand for the YAML texts.
\<close>

definition example_dump_result :: "collection \<times> model list \<Rightarrow> string" where
  "example_dump_result result =
     ''Collections: '' @ Name (fst result) @ '' '' @ README (fst result) @ [newline] @
     ''Models: '' @ concat (map (\<lambda>m. model_name m @ '' '') (snd result)) @ [newline]"

definition example_dump_index :: "string list \<Rightarrow> string" where
  "example_dump_index paths = ''Import: '' @ concat (map (\<lambda>p. p @ '' '') paths) @ [newline]"

definition example_env :: env where
  "example_env =
     \<lparr>root = [], relpath = (\<lambda>p. p),
      dump_result = example_dump_result, dump_index = example_dump_index\<rparr>"

text \<open>
  Files: a summary document, a document with one table, a second document with the same
  text whose name ends in \<open>xd\<close>, and a document with an annotation block without anchor.
\<close>

definition example_document :: string where
  "example_document =
  ''<!-- [DATASET] -->'' @ [newline] @
   [newline] @ ''<details>'' @ [newline] @
   ''<summary align='' @ [dquote] @ ''right'' @ [dquote] @ ''><a href='' @ [dquote] @ ''http://coco.url'' @ [dquote] @ ''>COCO (ECCV 2014)</a></summary>'' @ [newline] @
   ''| Arch | ckpt |'' @ [newline] @
   ''| :--- | :--: |'' @ [newline] @
   ''| [res50](configs/body/2d_kpt/foo/bar.py) | [ckpt](https://dl/x.pth) |'' @ [newline]"

definition example_malformed :: string where
  "example_malformed =
  ''<!-- [DATASET] -->'' @ [newline] @ [newline] @ ''<details>'' @ [newline] @ ''no anchor on this line'' @ [newline]"

definition example_world :: world where
  "example_world =
     \<lparr>files = [(''configs/README.md'', ''# Body'' @ [newline]),
               (''configs/a.md'', example_document),
               (''configs/a.xd'', example_document),
               (''configs/b.md'', example_malformed)],
      writes = []\<rparr>"

text \<open>The files after \<^verbatim>\<open>parse_md\<close> of the document \<open>configs/a.md\<close>.\<close>

definition example_world_after_a :: world where
  "example_world_after_a =
     \<lparr>files = files example_world @
        [(''configs/a.yml'',
          ''Collections: a configs/a.md'' @ [newline] @
          ''Models: body--2d_kpt--foo--bar '' @ [newline])],
      writes =
        [(''configs/a.yml'', None,
          ''Collections: a configs/a.md'' @ [newline] @
          ''Models: body--2d_kpt--foo--bar '' @ [newline])]\<rparr>"

section \<open>Facts about the string primitives\<close>

declare nbits.simps [simp del]
declare shortest.simps [simp del]
declare dec_shift.simps [simp del]
declare show_digits.simps [simp del]

lemma contains_sublist: "contains sub s = sublist sub s"
  by (induction s) (simp_all add: sublist_Cons_right)

lemma upper_char_other: "c \<notin> set lowercase \<Longrightarrow> upper_char c = c"
  by (simp add: upper_char_def lowercase_def uppercase_def)

lemma lower_char_other: "c \<notin> set uppercase \<Longrightarrow> lower_char c = c"
  by (simp add: lower_char_def lowercase_def uppercase_def)

lemma lower_upper_letters: "\<forall>c \<in> set lowercase. lower_char (upper_char c) = lower_char c"
  by (simp add: upper_char_def lower_char_def lowercase_def uppercase_def)

lemma lower_lower_letters: "\<forall>c \<in> set uppercase. lower_char (lower_char c) = lower_char c"
  by (simp add: lower_char_def lowercase_def uppercase_def)

lemma lower_upper_char: "lower_char (upper_char c) = lower_char c"
  using lower_upper_letters upper_char_other by (cases "c \<in> set lowercase") auto

lemma lower_lower_char: "lower_char (lower_char c) = lower_char c"
  using lower_lower_letters lower_char_other by (cases "c \<in> set uppercase") auto

lemma lower_upper: "lower (upper s) = lower s"
  by (simp add: lower_def upper_def lower_upper_char)

lemma lower_capitalize: "lower (capitalize s) = lower s"
  by (cases s) (simp_all add: lower_def capitalize_def lower_upper_char lower_lower_char)

lemma sublist_lower: "sublist xs ys \<Longrightarrow> sublist (lower xs) (lower ys)"
  unfolding sublist_def lower_def by (metis map_append)

section \<open>The membership test of the metric normalizer\<close>

text \<open>
  C3, as the specification words it: the test succeeds exactly when the term occurs in
  the header under case-insensitive comparison. It fails on the code: the header
  \<open>ap\<close> holds the term \<open>ap\<close>, and the test does not succeed, since the header holds
  neither \<open>AP\<close> nor \<open>Ap\<close>.
\<close>

theorem C3_case_insensitive_counterexample:
  "''ap'' \<in> set all_metrics \<and> sublist (lower ''ap'') (lower ''ap'') \<and>
   \<not> metric_in_key ''ap'' ''ap''"
  by (simp add: all_metrics_def metric_in_key_def upper_def capitalize_def lower_def
      upper_char_def lower_char_def lowercase_def uppercase_def)

text \<open>
  C3, amended: for every header and every term, the test succeeds exactly when the
  header holds, in the letter case written, the term in upper case or the term
  capitalised (first character in upper case, the rest in lower case). Whenever the test succeeds
  the term occurs in the header under case-insensitive comparison.
\<close>

theorem C3_metric_in_key:
  "(metric_in_key metric key \<longleftrightarrow>
      sublist (upper metric) key \<or> sublist (capitalize metric) key) \<and>
   (metric_in_key metric key \<longrightarrow> sublist (lower metric) (lower key))"
proof -
  have iff: "metric_in_key metric key \<longleftrightarrow>
      sublist (upper metric) key \<or> sublist (capitalize metric) key"
    by (simp add: metric_in_key_def contains_sublist)
  have "sublist (lower metric) (lower key)" if "sublist (upper metric) key"
    using sublist_lower [OF that] by (simp add: lower_upper)
  moreover have "sublist (lower metric) (lower key)" if "sublist (capitalize metric) key"
    using sublist_lower [OF that] by (simp add: lower_capitalize)
  ultimately show ?thesis using iff by blast
qed

theorem C3_metric_in_key_witness:
  "metric_in_key ''mean'' ''Mean <sub>1</sub>'' \<and>
   sublist (capitalize ''mean'') ''Mean <sub>1</sub>'' \<and>
   sublist (lower ''mean'') (lower ''Mean <sub>1</sub>'')"
proof -
  have m: "metric_in_key ''mean'' ''Mean <sub>1</sub>''"
    by (simp add: metric_in_key_def upper_def capitalize_def lower_def
        upper_char_def lower_char_def lowercase_def uppercase_def)
  have c: "sublist (capitalize ''mean'') ''Mean <sub>1</sub>''"
    by (simp add: contains_sublist [symmetric] capitalize_def lower_def
        upper_char_def lower_char_def lowercase_def uppercase_def)
  show ?thesis
    using m c C3_metric_in_key [of "''mean''" "''Mean <sub>1</sub>''"] by blast
qed

section \<open>The lists returned by \<^verbatim>\<open>collate_metrics\<close>\<close>

lemma collate_from_shape:
  "collate_from idx keys = Inr (names, idxs) \<Longrightarrow>
     length names = length idxs \<and> sorted_wrt (<) idxs \<and>
     (\<forall>i \<in> set idxs. idx \<le> i) \<and>
     (\<forall>k < length idxs. column_ok keys (idxs ! k - idx) (names ! k))"
proof (induction keys arbitrary: idx names idxs)
  case Nil
  then show ?case by simp
next
  case (Cons key keys)
  have shift: "column_ok (key # keys) (i - idx) name"
    if "column_ok keys (i - Suc idx) name" "Suc idx \<le> i" for i name
  proof -
    have "i - idx = Suc (i - Suc idx)" using that(2) by simp
    then show ?thesis using that(1) by (simp add: column_ok_def)
  qed
  show ?case
  proof (cases "key \<in> set non_metric_columns \<or> first_metric all_metrics key = None")
    case True
    then have rec: "collate_from (Suc idx) keys = Inr (names, idxs)"
      using Cons.prems by (auto split: if_splits)
    from Cons.IH [OF rec] have ih: "length names = length idxs" "sorted_wrt (<) idxs"
      "\<forall>i \<in> set idxs. Suc idx \<le> i"
      "\<forall>k < length idxs. column_ok keys (idxs ! k - Suc idx) (names ! k)"
      by auto
    have "column_ok (key # keys) (idxs ! k - idx) (names ! k)" if "k < length idxs" for k
      using shift [of "idxs ! k" "names ! k"] ih(3,4) that by simp
    moreover have "\<forall>i \<in> set idxs. idx \<le> i"
      using ih(3) by (auto intro: Suc_leD)
    ultimately show ?thesis using ih(1,2) by simp
  next
    case False
    then obtain metric where m: "first_metric all_metrics key = Some metric"
      and nk: "key \<notin> set non_metric_columns" by auto
    from Cons.prems m nk obtain used ns js where
      u: "metric_name metric key = Inr used"
      and rec: "collate_from (Suc idx) keys = Inr (ns, js)"
      and res: "names = used # ns" "idxs = idx # js"
      by (auto split: sum.splits)
    have here: "column_ok (key # keys) 0 used"
      using m nk u by (simp add: column_ok_def)
    from Cons.IH [OF rec] have ih: "length ns = length js" "sorted_wrt (<) js"
      "\<forall>i \<in> set js. Suc idx \<le> i"
      "\<forall>k < length js. column_ok keys (js ! k - Suc idx) (ns ! k)"
      by auto
    have "column_ok (key # keys) ((idx # js) ! k - idx) ((used # ns) ! k)"
      if "k < Suc (length js)" for k
    proof (cases k)
      case 0
      then show ?thesis using here by simp
    next
      case (Suc j)
      then have j: "j < length js" using that by simp
      then show ?thesis using Suc ih(3,4) shift by simp
    qed
    moreover have "\<forall>i \<in> set js. idx \<le> i"
      using ih(3) by (auto intro: Suc_leD)
    moreover have "\<forall>i \<in> set js. idx < i"
      using ih(3) by auto
    ultimately show ?thesis using ih(1,2) res by simp
  qed
qed


lemma collate_from_error:
  "collate_from idx keys = Inl err \<Longrightarrow>
     \<exists>key \<in> set keys. \<exists>metric.
        first_metric all_metrics key = Some metric \<and> metric_name metric key = Inl err"
proof (induction keys arbitrary: idx)
  case Nil
  then show ?case by simp
next
  case (Cons key keys)
  then show ?case
    by (fastforce split: if_splits option.splits sum.splits)
qed

lemma sorted_less_distinct: "sorted_wrt (<) (xs :: nat list) \<Longrightarrow> distinct xs"
  by (simp add: strict_sorted_iff)


lemma first_metric_AP: "first_metric all_metrics ''AP'' = Some ''ap''"
  by (simp add: all_metrics_def metric_in_key_def upper_def capitalize_def lower_def
      upper_char_def lower_char_def lowercase_def uppercase_def)

lemma first_metric_Mean: "first_metric all_metrics ''Mean'' = Some ''mean''"
  by (simp add: all_metrics_def metric_in_key_def upper_def capitalize_def lower_def
      upper_char_def lower_char_def lowercase_def uppercase_def)

lemma metric_name_AP: "metric_name ''ap'' ''AP'' = Inr ''AP''"
  by (simp add: metric_name_def py_strip_def strip_chars_def whitespace_def
      digit_span_def is_digit_def)

lemma metric_name_Mean: "metric_name ''mean'' ''Mean'' = Inr ''Mean''"
  by (simp add: metric_name_def py_strip_def strip_chars_def whitespace_def)

lemma collate_example:
  "collate_metrics [''Arch'', ''AP'', ''Mean'', ''ckpt''] = Inr ([''AP'', ''Mean''], [1, 2])"
  by (simp add: collate_metrics_def non_metric_columns_def first_metric_AP first_metric_Mean
      metric_name_AP metric_name_Mean)



section \<open>The name of a metric column\<close>

lemma skip_angle_spec:
  "skip_angle cs = Some rest \<Longrightarrow> spec_rewrite_from True cs = spec_rewrite_from False rest"
  by (induction cs) (auto split: if_splits)

lemma rewrite_key_spec: "rewrite_key key = Inr u \<Longrightarrow> u = spec_rewrite key"
  unfolding spec_rewrite_def
proof (induction key arbitrary: u rule: rewrite_key.induct)
  case 1
  then show ?case by simp
next
  case (2 c cs)
  then show ?case
    by (auto split: if_splits option.splits sum.splits simp: skip_angle_spec)
qed

lemma digit_span_None: "digit_span u = None \<Longrightarrow> \<forall>c \<in> set u. \<not> is_digit c"
proof -
  assume "digit_span u = None"
  then have "length (takeWhile (\<lambda>c. \<not> is_digit c) u) = length u"
    by (simp add: digit_span_def Let_def split: if_splits)
  then have "takeWhile (\<lambda>c. \<not> is_digit c) u = u"
    by (metis takeWhile_eq_take take_all order_refl)
  then show ?thesis by (metis set_takeWhileD)
qed

lemma digit_span_Some:
  assumes "digit_span u = Some (l, r)"
  shows "\<exists>pre ds post. u = pre @ ds @ post \<and> l = length pre \<and> r = length pre + length ds \<and>
           ds \<noteq> [] \<and> (\<forall>c \<in> set pre. \<not> is_digit c) \<and> (\<forall>c \<in> set ds. is_digit c) \<and>
           (post = [] \<or> \<not> is_digit (hd post))"
proof -
  let ?pre = "takeWhile (\<lambda>c. \<not> is_digit c) u"
  let ?rest = "dropWhile (\<lambda>c. \<not> is_digit c) u"
  let ?ds = "takeWhile is_digit ?rest"
  let ?post = "dropWhile is_digit ?rest"
  from assms have l: "l = length ?pre" and ne: "length ?pre \<noteq> length u"
    and r: "r = l + length (takeWhile is_digit (drop l u))"
    by (auto simp: digit_span_def Let_def split: if_splits)
  have rest: "drop l u = ?rest" by (simp add: l dropWhile_eq_drop)
  have "?rest \<noteq> []"
    using ne by (metis append_Nil2 takeWhile_dropWhile_id)
  then have "is_digit (hd ?rest)" using hd_dropWhile [of "\<lambda>c. \<not> is_digit c" u] by simp
  then have ds: "?ds \<noteq> []" using \<open>?rest \<noteq> []\<close> by (cases ?rest) auto
  have post: "?post = [] \<or> \<not> is_digit (hd ?post)"
    using hd_dropWhile [of is_digit ?rest] by blast
  show ?thesis
  proof (intro exI conjI)
    show "u = ?pre @ ?ds @ ?post" by simp
    show "l = length ?pre" by (rule l)
    show "r = length ?pre + length ?ds" using r rest l by simp
    show "?ds \<noteq> []" by (rule ds)
    show "\<forall>c \<in> set ?pre. \<not> is_digit c" by (auto dest: set_takeWhileD)
    show "\<forall>c \<in> set ?ds. is_digit c" by (auto dest: set_takeWhileD)
    show "?post = [] \<or> \<not> is_digit (hd ?post)" by (rule post)
  qed
qed

text \<open>
  C4, amended. For every header that matches a term of the vocabulary, on which the
  normalizer returns a name, and whose rewritten text has no two spaces in a row (so that
  collapsing runs of spaces would change nothing): the name is the header with every span
  from a \<open><\<close> to the next \<open>>\<close> removed and every \<open>*\<close> and \<open>_\<close> turned into a space, trimmed
  at both ends; and for the terms \<open>ap\<close> and \<open>ar\<close>, when that text holds a digit, its
  leftmost run of digits \<open>ds\<close> is replaced in place by \<open>@\<close> followed by the text of the float
  product \<^verbatim>\<open>int(ds) * 0.01\<close>. What stands before and after the digits stays as it is.
\<close>

theorem C4_metric_name:
  assumes "first_metric all_metrics key = Some metric"
    and "metric_name metric key = Inr name"
    and "\<not> sublist ''  '' (spec_rewrite key)"
  shows "if metric \<in> {''ap'', ''ar''} \<and> (\<exists>c \<in> set (py_strip (spec_rewrite key)). is_digit c)
         then \<exists>pre ds post t.
                py_strip (spec_rewrite key) = pre @ ds @ post \<and>
                (\<forall>c \<in> set pre. \<not> is_digit c) \<and>
                ds \<noteq> [] \<and> (\<forall>c \<in> set ds. is_digit c) \<and>
                (post = [] \<or> \<not> is_digit (hd post)) \<and>
                str_hundredths (int_of_digits ds) = Inr t \<and>
                name = pre @ ''@'' @ t @ post
         else name = py_strip (spec_rewrite key)"
proof -
  let ?u = "py_strip (spec_rewrite key)"
  obtain u0 where u0: "rewrite_key key = Inr u0"
    using assms(2) by (cases "rewrite_key key") (simp_all add: metric_name_def)
  have u: "py_strip u0 = ?u" using rewrite_key_spec [OF u0] by simp
  have unfold: "metric_name metric key =
      (if metric \<in> set [''ap'', ''ar''] then
         (case digit_span ?u of
            None \<Rightarrow> Inr ?u
          | Some (l, r) \<Rightarrow>
              (case py_int (take (r - l) (drop l ?u)) of
                 Inl err \<Rightarrow> Inl err
               | Inr n \<Rightarrow>
                   (case str_hundredths n of
                      Inl err \<Rightarrow> Inl err
                    | Inr t \<Rightarrow> Inr (take l ?u @ ''@'' @ t @ drop r ?u))))
       else Inr ?u)"
    by (simp add: metric_name_def u0 u Let_def)
  show ?thesis
  proof (cases "metric \<in> set [''ap'', ''ar'']")
    case False
    then have "name = ?u" using assms(2) unfold by simp
    then show ?thesis using False by simp
  next
    case ap: True
    show ?thesis
    proof (cases "digit_span ?u")
      case None
      then have "name = ?u" using assms(2) ap unfold by simp
      moreover have "\<not> (\<exists>c \<in> set ?u. is_digit c)"
        using digit_span_None [OF None] by simp
      ultimately show ?thesis by simp
    next
      case (Some lr)
      obtain l r where lr: "lr = (l, r)" by (cases lr)
      from digit_span_Some [of ?u l r] Some lr obtain pre ds post where
        d: "?u = pre @ ds @ post" "l = length pre" "r = length pre + length ds" "ds \<noteq> []"
          "\<forall>c \<in> set pre. \<not> is_digit c" "\<forall>c \<in> set ds. is_digit c"
          "post = [] \<or> \<not> is_digit (hd post)"
        by blast
      have parts: "take l ?u = pre" "take (r - l) (drop l ?u) = ds" "drop r ?u = post"
        using d(1,2,3) by simp_all
      have "(case py_int (take (r - l) (drop l ?u)) of
               Inl err \<Rightarrow> Inl err
             | Inr n \<Rightarrow>
                 (case str_hundredths n of
                    Inl err \<Rightarrow> Inl err
                  | Inr t \<Rightarrow> Inr (take l ?u @ ''@'' @ t @ drop r ?u))) = Inr name"
        using assms(2) ap Some lr unfold by simp
      then obtain t where
        "str_hundredths (int_of_digits (take (r - l) (drop l ?u))) = Inr t"
        "name = take l ?u @ ''@'' @ t @ drop r ?u"
        by (cases "4300 < length (take (r - l) (drop l ?u))";
            cases "str_hundredths (int_of_digits (take (r - l) (drop l ?u)))")
          (auto simp: py_int_def)
      then have t: "str_hundredths (int_of_digits ds) = Inr t" "name = pre @ ''@'' @ t @ post"
        unfolding parts by simp_all
      have digit: "\<exists>c \<in> set ?u. is_digit c"
        using d(1,4,6) by (cases ds) auto
      have "\<exists>pre ds post t.
                ?u = pre @ ds @ post \<and>
                (\<forall>c \<in> set pre. \<not> is_digit c) \<and>
                ds \<noteq> [] \<and> (\<forall>c \<in> set ds. is_digit c) \<and>
                (post = [] \<or> \<not> is_digit (hd post)) \<and>
                str_hundredths (int_of_digits ds) = Inr t \<and>
                name = pre @ ''@'' @ t @ post"
        using d(1,4,5,6,7) t by blast
      then show ?thesis using ap digit by simp
    qed
  qed
qed

lemma first_metric_AP_sup: "first_metric all_metrics ''AP<sup>50</sup>'' = Some ''ap''"
  by (simp add: all_metrics_def metric_in_key_def upper_def capitalize_def lower_def
      upper_char_def lower_char_def lowercase_def uppercase_def)

lemma to_double_50: "to_double 50 (Suc 0) = (7036874417766400, - 47)"
  by (simp add: to_double_def nbits.simps pow2_def round_half_even_def Let_def)

lemma float_mul_50: "float_mul (7036874417766400, - 47) hundredth = (4503599627370496, - 53)"
  unfolding float_mul_def hundredth_def prod.case
  by (simp add: to_double_def nbits.simps pow2_def round_half_even_def Let_def)

lemma float_repr_half: "float_repr (4503599627370496, - 53) = ''0.5''"
  by (simp add: float_repr_def pow2_def decpt_of_def dec_shift.simps shortest.simps
      show_digits.simps digit_char_def strip_zeros_def Let_def split del: if_split)

lemma str_hundredths_50: "str_hundredths 50 = Inr ''0.5''"
  by (simp add: str_hundredths_def int_to_float_def to_double_50 float_mul_50 float_repr_half)

lemma int_of_digits_50: "int_of_digits ''50'' = 50"
  by (simp add: int_of_digits_def digit_val_def)

lemma metric_name_AP_sup: "metric_name ''ap'' ''AP<sup>50</sup>'' = Inr ''AP@0.5''"
  by (simp add: metric_name_def py_strip_def strip_chars_def whitespace_def digit_span_def
      is_digit_def py_int_def int_of_digits_50 str_hundredths_50)

lemma spec_rewrite_AP_sup: "spec_rewrite ''AP<sup>50</sup>'' = ''AP50''"
  by (simp add: spec_rewrite_def)

theorem C4_metric_name_witness:
  "first_metric all_metrics ''AP<sup>50</sup>'' = Some ''ap'' \<and>
   metric_name ''ap'' ''AP<sup>50</sup>'' = Inr ''AP@0.5'' \<and>
   \<not> sublist ''  '' (spec_rewrite ''AP<sup>50</sup>'') \<and>
   (\<exists>pre ds post t.
      py_strip (spec_rewrite ''AP<sup>50</sup>'') = pre @ ds @ post \<and>
      (\<forall>c \<in> set pre. \<not> is_digit c) \<and>
      ds \<noteq> [] \<and> (\<forall>c \<in> set ds. is_digit c) \<and>
      (post = [] \<or> \<not> is_digit (hd post)) \<and>
      str_hundredths (int_of_digits ds) = Inr t \<and>
      ''AP@0.5'' = pre @ ''@'' @ t @ post)"
proof -
  have spaces: "\<not> sublist ''  '' (spec_rewrite ''AP<sup>50</sup>'')"
    by (simp add: spec_rewrite_AP_sup contains_sublist [symmetric])
  have digit: "\<exists>c \<in> set (py_strip (spec_rewrite ''AP<sup>50</sup>'')). is_digit c"
    by (simp add: spec_rewrite_AP_sup py_strip_def strip_chars_def whitespace_def is_digit_def)
  show ?thesis
    using C4_metric_name [OF first_metric_AP_sup metric_name_AP_sup spaces] digit
      first_metric_AP_sup metric_name_AP_sup spaces
    by simp
qed

text \<open>
  C4, as the specification words it, gives two examples: the header \<open>AP 50\<close> yields
  \<open>AP@0.5\<close>, and the header \<open>AP@<tag>50\<close> yields \<open>AP @0.5\<close>. The code yields \<open>AP @0.5\<close> for
  the first (the space before the digits stays) and \<open>AP@@0.5\<close> for the second (the
  bracketed tag is removed, nothing is put in its place, and the \<open>@\<close> of the header stays).
\<close>

lemma first_metric_AP_50: "first_metric all_metrics ''AP 50'' = Some ''ap''"
  by (simp add: all_metrics_def metric_in_key_def upper_def capitalize_def lower_def
      upper_char_def lower_char_def lowercase_def uppercase_def)

lemma first_metric_AP_tag: "first_metric all_metrics ''AP@<tag>50'' = Some ''ap''"
  by (simp add: all_metrics_def metric_in_key_def upper_def capitalize_def lower_def
      upper_char_def lower_char_def lowercase_def uppercase_def)

lemma metric_name_AP_50: "metric_name ''ap'' ''AP 50'' = Inr ''AP @0.5''"
  by (simp add: metric_name_def py_strip_def strip_chars_def whitespace_def digit_span_def
      is_digit_def py_int_def int_of_digits_50 str_hundredths_50)

lemma metric_name_AP_tag: "metric_name ''ap'' ''AP@<tag>50'' = Inr ''AP@@0.5''"
  by (simp add: metric_name_def py_strip_def strip_chars_def whitespace_def digit_span_def
      is_digit_def py_int_def int_of_digits_50 str_hundredths_50)

theorem C4_examples_counterexample:
  "collate_metrics [''AP 50''] = Inr ([''AP @0.5''], [0]) \<and>
   collate_metrics [''AP@<tag>50''] = Inr ([''AP@@0.5''], [0])"
  by (simp add: collate_metrics_def non_metric_columns_def first_metric_AP_50
      first_metric_AP_tag metric_name_AP_50 metric_name_AP_tag)

text \<open>
  Runs of spaces are kept: the script calls \<^verbatim>\<open>re.sub(' +', ' ', used_metric)\<close> and drops the
  result.
\<close>

lemma metric_name_keeps_space_runs: "metric_name ''ap'' ''*AP*  (M)'' = Inr ''AP   (M)''"
  by (simp add: metric_name_def py_strip_def strip_chars_def whitespace_def digit_span_def
      is_digit_def)

section \<open>Rows and annotation blocks\<close>

lemma py_find_None: "py_find sub s = None \<longleftrightarrow> \<not> sublist sub s"
  by (induction s) (auto simp: sublist_Cons_right)

lemma and_then_Inr [simp]: "and_then (Inr x) f = f x"
  by (simp add: and_then_def)

lemma and_then_Inl [simp]: "and_then (Inl err) f = Inl err"
  by (simp add: and_then_def)

lemma parse_rows_skip_row:
  assumes "j < length lines"
    and "lines ! j = CHR ''|'' # rest"
    and "config_idx tb < length (row_cells (lines ! j))"
    and "\<not> sublist '']('' (row_cells (lines ! j) ! config_idx tb)"
  shows "parse_row collection_name task tb dataset (lines ! j) = Inr None \<and>
         parse_rows collection_name task tb dataset lines j models =
           parse_rows collection_name task tb dataset lines (j + 1) models"
proof -
  have row: "parse_row collection_name task tb dataset (lines ! j) = Inr None"
    using assms(3,4) by (simp add: parse_row_def py_nth_def py_find_None Let_def)
  show ?thesis
    using assms(1,2) row
    by (subst parse_rows.simps) simp
qed

text \<open>
  C7: a data row (a line of the table that starts with \<open>|\<close>) whose \<open>Arch\<close> cell holds no
  \<^verbatim>\<open>](\<close> yields no model record and no error, and the loop over the rows goes on with the
  next line, with the same list of models.
\<close>

theorem C7_row_without_link:
  assumes "j < length lines"
    and "lines ! j = CHR ''|'' # rest"
    and "config_idx tb < length (row_cells (lines ! j))"
    and "\<not> sublist '']('' (row_cells (lines ! j) ! config_idx tb)"
  shows "parse_row collection_name task tb dataset (lines ! j) = Inr None \<and>
         parse_rows collection_name task tb dataset lines j models =
           parse_rows collection_name task tb dataset lines (j + 1) models"
  using assms by (rule parse_rows_skip_row)

text \<open>
  C8: at an annotation line (it starts with \<^verbatim>\<open><!\<close>) whose fourth line holds an anchor, one
  turn of the loop moves four lines on. The URL of the anchor is appended to \<open>Paper\<close>
  whatever the type; the name (the anchor text up to the first parenthesis, stripped) is
  appended to \<open>Architecture\<close> exactly when the annotation line holds \<open>ALGORITHM\<close> or
  \<open>BACKBONE\<close>, and becomes the dataset exactly when it holds \<open>DATASET\<close> and neither of
  those; otherwise both keep their values. The models are untouched.
\<close>

theorem C8_annotation_block:
  assumes "i < length lines"
    and "take 2 (lines ! i) = ''<!''"
    and "i + 3 < length lines"
    and "first_anchor (lines ! (i + 3)) = Some (url, text)"
    and "name = py_strip (takeWhile (\<lambda>c. c \<noteq> CHR ''('') text)"
    and "arch = (sublist ''ALGORITHM'' (lines ! i) \<or> sublist ''BACKBONE'' (lines ! i))"
  shows "\<exists>st'. parse_step collection_name task lines i st = Inr (i + 4, st') \<and>
           parse_loop collection_name task lines i st =
             parse_loop collection_name task lines (i + 4) st' \<and>
           st_Paper st' = st_Paper st @ [url] \<and>
           st_Architecture st' =
             (if arch then st_Architecture st @ [name] else st_Architecture st) \<and>
           st_dataset st' =
             (if sublist ''DATASET'' (lines ! i) \<and> \<not> arch then Some name else st_dataset st) \<and>
           st_models st' = st_models st"
proof -
  let ?st' = "st\<lparr>st_Architecture :=
                      (if arch then st_Architecture st @ [name] else st_Architecture st),
                    st_dataset :=
                      (if \<not> arch \<and> contains ''DATASET'' (lines ! i) then Some name
                       else st_dataset st),
                    st_Paper := st_Paper st @ [url]\<rparr>"
  have step: "parse_step collection_name task lines i st = Inr (i + 4, ?st')"
    using assms(2,3,4,5,6)
    by (simp add: parse_step_def py_nth_def contains_sublist Let_def)
  have loop: "parse_loop collection_name task lines i st =
      parse_loop collection_name task lines (i + 4) ?st'"
    using assms(1) step by (subst parse_loop.simps) simp
  show ?thesis
    using step loop by (intro exI [of _ ?st']) (auto simp: contains_sublist)
qed

theorem C7_row_without_link_witness:
  "0 < length example_rows \<and>
   example_rows ! 0 = CHR ''|'' # '' plain | x |'' @ [newline] \<and>
   config_idx example_table < length (row_cells (example_rows ! 0)) \<and>
   \<not> sublist '']('' (row_cells (example_rows ! 0) ! config_idx example_table) \<and>
   parse_row ''c'' ''t'' example_table (Some ''COCO'') (example_rows ! 0) = Inr None \<and>
   parse_rows ''c'' ''t'' example_table (Some ''COCO'') example_rows 0 [] =
     parse_rows ''c'' ''t'' example_table (Some ''COCO'') example_rows (0 + 1) []"
proof -
  have h1: "0 < length example_rows" by code_simp
  have h2: "example_rows ! 0 = CHR ''|'' # '' plain | x |'' @ [newline]" by code_simp
  have h3: "config_idx example_table < length (row_cells (example_rows ! 0))" by code_simp
  have h4: "\<not> sublist '']('' (row_cells (example_rows ! 0) ! config_idx example_table)"
    unfolding contains_sublist [symmetric] by code_simp
  show ?thesis
    using C7_row_without_link [OF h1 h2 h3 h4, of "''c''" "''t''" "Some ''COCO''" "[]"]
      h1 h2 h3 h4
    by blast
qed

theorem C8_annotation_block_witness:
  "0 < length example_annotation \<and>
   take 2 (example_annotation ! 0) = ''<!'' \<and>
   0 + 3 < length example_annotation \<and>
   first_anchor (example_annotation ! (0 + 3)) = Some (''http://coco.url'', ''COCO (ECCV 2014)'') \<and>
   (\<exists>st'. parse_step ''c'' ''t'' example_annotation 0 initial_state = Inr (0 + 4, st') \<and>
      st_Paper st' = [''http://coco.url''] \<and> st_Architecture st' = [] \<and>
      st_dataset st' = Some ''COCO'' \<and> st_models st' = [])"
proof -
  have h1: "0 < length example_annotation" by code_simp
  have h2: "take 2 (example_annotation ! 0) = ''<!''" by code_simp
  have h3: "0 + 3 < length example_annotation" by code_simp
  have h4: "first_anchor (example_annotation ! (0 + 3)) =
      Some (''http://coco.url'', ''COCO (ECCV 2014)'')"
    by code_simp
  have h5: "''COCO'' = py_strip (takeWhile (\<lambda>c. c \<noteq> CHR ''('') ''COCO (ECCV 2014)'')"
    by code_simp
  have h6: "False = (sublist ''ALGORITHM'' (example_annotation ! 0) \<or>
      sublist ''BACKBONE'' (example_annotation ! 0))"
    unfolding contains_sublist [symmetric] by code_simp
  have h7: "sublist ''DATASET'' (example_annotation ! 0)"
    unfolding contains_sublist [symmetric] by code_simp
  from C8_annotation_block [OF h1 h2 h3 h4 h5 h6, of "''c''" "''t''" initial_state]
  obtain st' where
    "parse_step ''c'' ''t'' example_annotation 0 initial_state = Inr (0 + 4, st')"
    "st_Paper st' = st_Paper initial_state @ [''http://coco.url'']"
    "st_Architecture st' = st_Architecture initial_state"
    "st_dataset st' = Some ''COCO''"
    "st_models st' = st_models initial_state"
    using h7 by auto
  then show ?thesis
    using h1 h2 h3 h4 by (auto simp: initial_state_def)
qed

section \<open>The name of a model\<close>

lemma py_find_first:
  "c \<notin> set pre \<Longrightarrow> py_find (c # s) (pre @ c # s @ rest) = Some (length pre)"
  by (induction pre) auto

lemma link_target_cell:
  assumes "CHR '']'' \<notin> set pre" and "CHR '')'' \<notin> set target"
  shows "link_target (pre @ '']('' @ target @ '')'' @ post) = Inr target"
proof -
  let ?cell = "pre @ '']('' @ target @ '')'' @ post"
  have "py_find '']('' ?cell = Some (length pre)"
    using py_find_first [OF assms(1), of "''(''" "target @ '')'' @ post"] by simp
  then have k: "py_index '']('' ?cell = Inr (length pre)"
    by (simp add: py_index_def)
  have "drop (length pre + 2) ?cell = target @ CHR '')'' # post" by simp
  moreover have "py_find '')'' (target @ CHR '')'' # post) = Some (length target)"
    using py_find_first [OF assms(2), of "[]" post] by simp
  ultimately have r: "py_index_from '')'' ?cell (length pre + 2) =
      Inr (length pre + 2 + length target)"
    by (simp add: py_index_from_def)
  have "slice ?cell (length pre + 2) (length pre + 2 + length target) = target"
    by (simp add: slice_def)
  then show ?thesis
    unfolding link_target_def k and_then_Inr r by simp
qed

lemma strip_chars_id:
  assumes "s \<noteq> []" and "hd s \<notin> set cs" and "last s \<notin> set cs"
  shows "strip_chars cs s = s"
proof -
  have "dropWhile (\<lambda>c. c \<in> set cs) s = s"
    using assms(1,2) by (cases s) auto
  moreover have "dropWhile (\<lambda>c. c \<in> set cs) (rev s) = rev s"
    using assms(1,3) by (cases "rev s") (auto simp: hd_rev [symmetric])
  ultimately show ?thesis by (simp add: strip_chars_def)
qed

lemma py_rfind_None: "c \<notin> set ys \<Longrightarrow> py_rfind [c] ys = None"
  by (induction ys) auto

lemma py_rfind_last: "c \<notin> set ys \<Longrightarrow> py_rfind [c] (xs @ c # ys) = Some (length xs)"
  by (induction xs) (auto simp: py_rfind_None)

lemma replace_first_prefix: "old \<noteq> [] \<Longrightarrow> replace_first old new (old @ s) = new @ s"
  by (cases old) auto

lemma replace_all_char:
  "replace_all [c] new s = concat (map (\<lambda>x. if x = c then new else [x]) s)"
  by (induction s) auto

lemma splitext_general:
  assumes "pre \<noteq> []" and "last pre = CHR ''/''"
    and "CHR ''/'' \<notin> set stem" and "\<exists>c \<in> set stem. c \<noteq> CHR ''.''"
    and "CHR ''/'' \<notin> set ext" and "CHR ''.'' \<notin> set ext"
  shows "splitext (pre @ stem @ CHR ''.'' # ext) = (pre @ stem, CHR ''.'' # ext)"
proof -
  let ?p = "pre @ stem @ CHR ''.'' # ext"
  obtain pre' where pre: "pre = pre' @ [CHR ''/'']"
    using assms(1,2) by (metis append_butlast_last_id)
  have "CHR ''/'' \<notin> set (stem @ CHR ''.'' # ext)" using assms(3,5) by simp
  then have "py_rfind [CHR ''/''] (pre' @ CHR ''/'' # (stem @ CHR ''.'' # ext)) =
      Some (length pre')"
    by (rule py_rfind_last)
  then have sep: "py_rfind [CHR ''/''] ?p = Some (length pre')"
    by (simp add: pre)
  have "py_rfind [CHR ''.''] ((pre @ stem) @ CHR ''.'' # ext) = Some (length (pre @ stem))"
    using assms(6) by (rule py_rfind_last)
  then have dot: "py_rfind [CHR ''.''] ?p = Some (length pre + length stem)"
    by simp
  have sl: "slice ?p (Suc (length pre')) (length pre + length stem) = stem"
    by (simp add: slice_def pre)
  have le: "Suc (length pre') \<le> length pre + length stem" by (simp add: pre)
  have tk: "take (length pre + length stem) ?p = pre @ stem"
    and dr: "drop (length pre + length stem) ?p = CHR ''.'' # ext"
    by simp_all
  show ?thesis
    unfolding splitext_def sep dot option.case Let_def sl tk dr
    using assms(4) le by simp
qed

lemma splitext_config:
  assumes "dirs = [] \<or> last dirs = CHR ''/''"
    and "CHR ''/'' \<notin> set stem" and "\<exists>c \<in> set stem. c \<noteq> CHR ''.''"
    and "CHR ''/'' \<notin> set ext" and "CHR ''.'' \<notin> set ext"
  shows "splitext (''configs/'' @ dirs @ stem @ ''.'' @ ext) =
           (''configs/'' @ dirs @ stem, ''.'' @ ext)"
proof -
  have "last (''configs/'' @ dirs) = CHR ''/''" using assms(1) by auto
  then show ?thesis
    using splitext_general [where pre = "''configs/'' @ dirs" and stem = stem and ext = ext]
      assms(2-5) by simp
qed


text \<open>
  C5: when the \<open>Arch\<close> cell of a row holds a link whose target has the form
  \<open>configs/<dirs><stem>.<ext>\<close> (every directory of \<open>dirs\<close> followed by \<open>/\<close>; a stem
  without \<open>/\<close> that is not made of dots only; an extension that is not empty and has no
  dot and no \<open>/\<close>), and the row yields a record, then the configuration path of the
  record is the target and its name is \<open>dirs\<close> and \<open>stem\<close> with every \<open>/\<close> replaced by \<open>--\<close>:
  the extension and the prefix \<open>configs/\<close> are gone. The link is the first of the cell
  (no \<open>]\<close> before it) and its target ends at the first \<open>)\<close>.
\<close>

theorem C5_model_name:
  assumes "py_nth (row_cells row) (config_idx tb) = Inr (pre @ '']('' @ target @ '')'' @ post)"
    and "CHR '']'' \<notin> set pre"
    and "CHR '')'' \<notin> set target"
    and "target = ''configs/'' @ dirs @ stem @ ''.'' @ ext"
    and "dirs = [] \<or> last dirs = CHR ''/''"
    and "CHR ''/'' \<notin> set stem"
    and "\<exists>c \<in> set stem. c \<noteq> CHR ''.''"
    and "ext \<noteq> []"
    and "CHR ''/'' \<notin> set ext"
    and "CHR ''.'' \<notin> set ext"
    and "parse_row collection_name task tb dataset row = Inr (Some m)"
  shows "Config m = target \<and>
         model_name m =
           concat (map (\<lambda>c. if c = CHR ''/'' then ''--'' else [c]) (dirs @ stem))"
proof -
  let ?cell = "pre @ '']('' @ target @ '')'' @ post"
  have link: "link_target ?cell = Inr target"
    using assms(2,3) by (rule link_target_cell)
  have "sublist '']('' (pre @ '']('' @ (target @ '')'' @ post))"
    by (rule sublist_appendI)
  then have found: "(py_find '']('' ?cell = None) = False"
    by (simp add: py_find_None)
  have "last target = last ext" using assms(4,8) by simp
  moreover have "last ext \<in> set ext" using assms(8) by (rule last_in_set)
  ultimately have "last target \<notin> set ''./''" using assms(9,10) by auto
  moreover have "hd target \<notin> set ''./''" using assms(4) by simp
  moreover have "target \<noteq> []" using assms(4) by simp
  ultimately have strip: "strip_chars ''./'' target = target"
    by (simp add: strip_chars_id)
  have name: "model_name_of target =
      concat (map (\<lambda>c. if c = CHR ''/'' then ''--'' else [c]) (dirs @ stem))"
    unfolding model_name_of_def assms(4) splitext_config [OF assms(5,6,7,9,10)] fst_conv
    using replace_first_prefix [of "''configs/''" "[]" "dirs @ stem"]
    by (simp add: replace_all_char)
  have "parse_row collection_name task tb dataset row =
      and_then (py_nth (row_cells row) (ckpt_idx tb)) (\<lambda>ckpt_cell.
      and_then (link_target ckpt_cell) (\<lambda>ckpt.
      and_then (case dataset of None \<Rightarrow> Inl UnboundLocalError | Some d \<Rightarrow> Inr d) (\<lambda>d.
      and_then (optional_float (row_cells row) (flops_idx tb)) (\<lambda>flops.
      and_then (optional_float (row_cells row) (params_idx tb)) (\<lambda>params.
      and_then (read_metrics (row_cells row)
                  (zip (metric_name_list tb) (metric_idx_list tb)) []) (\<lambda>metrics.
      Inr (Some
        \<lparr>model_name = model_name_of target,
         In_Collection = collection_name,
         Config = target,
         Metadata = \<lparr>Training_Data = d, FLOPs = flops, Parameters = params\<rparr>,
         Results = [\<lparr>Task = task, Dataset = d, Metrics = metrics\<rparr>],
         Weights = ckpt\<rparr>)))))))"
    unfolding parse_row_def Let_def assms(1) and_then_Inr found if_False link strip
    by (rule refl)
  then have "Config m = target \<and> model_name m = model_name_of target"
    using assms(11) by (auto simp: and_then_def split: sum.splits)
  then show ?thesis using name by simp
qed

theorem C5_model_name_witness:
  "py_nth (row_cells example_row) (config_idx example_table) =
     Inr ('' [res50'' @ '']('' @ ''configs/body/2d_kpt/foo/bar.py'' @ '')'' @ '' '') \<and>
   parse_row ''c'' ''t'' example_table (Some ''COCO'') example_row = Inr (Some example_model) \<and>
   Config example_model = ''configs/body/2d_kpt/foo/bar.py'' \<and>
   model_name example_model = ''body--2d_kpt--foo--bar''"
proof -
  have h1: "py_nth (row_cells example_row) (config_idx example_table) =
      Inr ('' [res50'' @ '']('' @ ''configs/body/2d_kpt/foo/bar.py'' @ '')'' @ '' '')"
    by code_simp
  have h2: "CHR '']'' \<notin> set '' [res50''" by simp
  have h3: "CHR '')'' \<notin> set ''configs/body/2d_kpt/foo/bar.py''" by simp
  have h4: "''configs/body/2d_kpt/foo/bar.py'' =
      ''configs/'' @ ''body/2d_kpt/foo/'' @ ''bar'' @ ''.'' @ ''py''"
    by simp
  have h5: "''body/2d_kpt/foo/'' = [] \<or> last ''body/2d_kpt/foo/'' = CHR ''/''" by simp
  have h6: "CHR ''/'' \<notin> set ''bar''" by simp
  have h7: "\<exists>c \<in> set ''bar''. c \<noteq> CHR ''.''" by simp
  have h8: "''py'' \<noteq> []" by simp
  have h9: "CHR ''/'' \<notin> set ''py''" by simp
  have h10: "CHR ''.'' \<notin> set ''py''" by simp
  have h11: "parse_row ''c'' ''t'' example_table (Some ''COCO'') example_row =
      Inr (Some example_model)"
    by code_simp
  have "Config example_model = ''configs/body/2d_kpt/foo/bar.py'' \<and>
      model_name example_model =
        concat (map (\<lambda>c. if c = CHR ''/'' then ''--'' else [c]) (''body/2d_kpt/foo/'' @ ''bar''))"
    by (rule C5_model_name [OF h1 h2 h3 h4 h5 h6 h7 h8 h9 h10 h11])
  then show ?thesis using h1 h11 by simp
qed

section \<open>A table before any dataset annotation\<close>

lemma reaches_loop:
  "reaches collection_name task lines i st \<Longrightarrow>
     parse_loop collection_name task lines 0 initial_state =
       parse_loop collection_name task lines i st"
proof (induction rule: reaches.induct)
  case start
  show ?case by simp
next
  case (step i st i' st')
  have "parse_loop collection_name task lines i st =
      parse_loop collection_name task lines i' st'"
    using step.hyps(2,3) by (subst parse_loop.simps) simp
  then show ?case using step.IH by simp
qed

lemma parse_loop_error:
  assumes "reaches collection_name task lines i st" and "i < length lines"
    and "parse_step collection_name task lines i st = Inl err"
  shows "parse_lines collection_name readme task lines = Inl err"
proof -
  have "parse_loop collection_name task lines i st = Inl err"
    using assms(2,3) by (subst parse_loop.simps) simp
  then show ?thesis
    using reaches_loop [OF assms(1)] by (simp add: parse_lines_def)
qed

lemma parse_step_dataset:
  assumes "parse_step collection_name task lines i st = Inr (i', st')"
    and "st_dataset st' \<noteq> st_dataset st"
  shows "dataset_annotation (lines ! i)"
  using assms
  by (auto simp: parse_step_def and_then_def Let_def dataset_annotation_def contains_sublist
      split: if_splits sum.splits option.splits list.splits prod.splits)

lemma reaches_dataset:
  "reaches collection_name task lines i st \<Longrightarrow> st_dataset st \<noteq> None \<Longrightarrow>
     \<exists>k < i. k < length lines \<and> dataset_annotation (lines ! k)"
proof (induction rule: reaches.induct)
  case start
  then show ?case by (simp add: initial_state_def)
next
  case (step i st i' st')
  have adv: "i < i'" using step.hyps(3) by (rule parse_step_advances)
  show ?case
  proof (cases "st_dataset st' = st_dataset st")
    case True
    then obtain k where "k < i" "k < length lines" "dataset_annotation (lines ! k)"
      using step.IH step.prems by auto
    then show ?thesis using adv by (auto intro: less_trans)
  next
    case False
    then have "dataset_annotation (lines ! i)"
      using step.hyps(3) parse_step_dataset by blast
    then show ?thesis using adv step.hyps(2) by blast
  qed
qed

lemma parse_rows_skip:
  assumes "\<forall>r. j0 \<le> r \<and> r < j \<longrightarrow>
      r < length lines \<and> (\<exists>rest. lines ! r = CHR ''|'' # rest) \<and>
      config_idx tb < length (row_cells (lines ! r)) \<and>
      \<not> sublist '']('' (row_cells (lines ! r) ! config_idx tb)"
    and "j0 \<le> j"
  shows "parse_rows collection_name task tb dataset lines j0 models =
         parse_rows collection_name task tb dataset lines j models"
  using assms(2,1)
proof (induction rule: dec_induct)
  case base
  show ?case by simp
next
  case (step n)
  then have n: "n < length lines" "\<exists>rest. lines ! n = CHR ''|'' # rest"
    "config_idx tb < length (row_cells (lines ! n))"
    "\<not> sublist '']('' (row_cells (lines ! n) ! config_idx tb)"
    by auto
  from n(2) obtain rest where rest: "lines ! n = CHR ''|'' # rest" by blast
  have "parse_rows collection_name task tb dataset lines n models =
      parse_rows collection_name task tb dataset lines (n + 1) models"
    using parse_rows_skip_row [OF n(1) rest n(3,4)] by blast
  moreover have "parse_rows collection_name task tb dataset lines j0 models =
      parse_rows collection_name task tb dataset lines n models"
    using step by auto
  ultimately show ?case by simp
qed


lemma link_target_error: "link_target cell = Inl err \<Longrightarrow> err = ValueError"
  by (auto simp: link_target_def and_then_def py_index_def py_index_from_def
      split: sum.splits option.splits)

lemma py_nth_error: "py_nth xs k = Inl err \<Longrightarrow> err = IndexError"
  by (auto simp: py_nth_def split: if_splits)

lemma parse_row_no_dataset:
  assumes "py_nth (row_cells row) (config_idx tb) = Inr arch" and "sublist '']('' arch"
  shows "parse_row collection_name task tb None row = Inl (row_error_unbound tb row arch)"
proof -
  have found: "(py_find '']('' arch = None) = False"
    using assms(2) by (simp add: py_find_None)
  have unfold: "parse_row collection_name task tb None row =
      and_then (link_target arch) (\<lambda>target.
      and_then (py_nth (row_cells row) (ckpt_idx tb)) (\<lambda>ckpt_cell.
      and_then (link_target ckpt_cell) (\<lambda>ckpt. Inl UnboundLocalError)))"
    unfolding parse_row_def Let_def assms(1) and_then_Inr found if_False option.case
      and_then_Inl
    by (rule refl)
  show ?thesis
  proof (cases "link_target arch")
    case (Inl err)
    then have "err = ValueError" by (rule link_target_error)
    then show ?thesis using Inl unfold by (simp add: row_error_unbound_def)
  next
    case arch: (Inr t)
    show ?thesis
    proof (cases "py_nth (row_cells row) (ckpt_idx tb)")
      case (Inl err)
      then have "err = IndexError" by (rule py_nth_error)
      then show ?thesis using Inl arch unfold by (simp add: row_error_unbound_def)
    next
      case cell: (Inr c)
      show ?thesis
      proof (cases "link_target c")
        case (Inl err)
        then have "err = ValueError" by (rule link_target_error)
        then show ?thesis using Inl arch cell unfold by (simp add: row_error_unbound_def)
      next
        case (Inr t')
        then show ?thesis using arch cell unfold by (simp add: row_error_unbound_def)
      qed
    qed
  qed
qed

lemma row_before_dataset_fails:
  assumes "reaches collection_name task lines i st"
    and "\<forall>k < i. \<not> dataset_annotation (lines ! k)"
    and "i < length lines"
    and "lines ! i = CHR ''|'' # rest"
    and "i + 1 < length lines"
    and "take 3 (lines ! (i + 1)) = ''| :''"
    and "parse_header (lines ! i) = Inr tb"
    and "\<forall>r. i + 2 \<le> r \<and> r < j \<longrightarrow>
           r < length lines \<and> (\<exists>rest. lines ! r = CHR ''|'' # rest) \<and>
           config_idx tb < length (row_cells (lines ! r)) \<and>
           \<not> sublist '']('' (row_cells (lines ! r) ! config_idx tb)"
    and "i + 2 \<le> j"
    and "j < length lines"
    and "lines ! j = CHR ''|'' # rest'"
    and "py_nth (row_cells (lines ! j)) (config_idx tb) = Inr arch"
    and "sublist '']('' arch"
  shows "parse_lines collection_name readme task lines =
           Inl (row_error_unbound tb (lines ! j) arch)"
proof -
  let ?err = "row_error_unbound tb (lines ! j) arch"
  have ds: "st_dataset st = None"
    using reaches_dataset [OF assms(1)] assms(2) by blast
  have err: "parse_row collection_name task tb None (lines ! j) = Inl ?err"
    using assms(12,13) by (rule parse_row_no_dataset)
  have "parse_rows collection_name task tb None lines j (st_models st) = Inl ?err"
    using assms(10,11) err by (subst parse_rows.simps) simp
  then have rows: "parse_rows collection_name task tb None lines (i + 2) (st_models st) =
      Inl ?err"
    using parse_rows_skip [OF assms(8,9)] by simp
  have "parse_step collection_name task lines i st = Inl ?err"
    using assms(4,5,6,7) rows ds by (simp add: parse_step_def Let_def)
  then show ?thesis
    using parse_loop_error [OF assms(1,3)] by simp
qed

lemma parse_row_needs_dataset:
  "parse_row collection_name task tb None row \<noteq> Inr (Some m)"
  by (auto simp: parse_row_def and_then_def Let_def split: sum.splits option.splits)

lemma parse_rows_no_dataset:
  "parse_rows collection_name task tb dataset lines j models = Inr (j', models') \<Longrightarrow>
     dataset = None \<Longrightarrow> models' = models"
proof (induction collection_name task tb dataset lines j models
    rule: parse_rows.induct)
  case (1 collection_name task tb dataset lines j models)
  show ?case
  proof (cases "j < length lines")
    case False
    then show ?thesis using "1.prems" by (simp add: parse_rows.simps)
  next
    case True
    then show ?thesis
      using "1.prems" "1.IH" parse_row_needs_dataset [of collection_name task tb "lines ! j"]
      by (subst (asm) parse_rows.simps)
        (auto split: list.splits if_splits sum.splits option.splits)
  qed
qed

lemma parse_step_models:
  assumes "parse_step collection_name task lines i st = Inr (i', st')"
    and "st_models st' \<noteq> st_models st"
  shows "st_dataset st \<noteq> None"
  using assms
  by (auto simp: parse_step_def and_then_def Let_def
      split: if_splits sum.splits option.splits list.splits prod.splits
      dest: parse_rows_no_dataset)

lemma reaches_models:
  "reaches collection_name task lines i st \<Longrightarrow> st_models st \<noteq> [] \<Longrightarrow>
     \<exists>k < i. k < length lines \<and> dataset_annotation (lines ! k)"
proof (induction rule: reaches.induct)
  case start
  then show ?case by (simp add: initial_state_def)
next
  case (step i st i' st')
  have adv: "i < i'" using step.hyps(3) by (rule parse_step_advances)
  show ?case
  proof (cases "st_models st' = st_models st")
    case True
    then obtain k where "k < i" "k < length lines" "dataset_annotation (lines ! k)"
      using step.IH step.prems by auto
    then show ?thesis using adv by (auto intro: less_trans)
  next
    case False
    then have "st_dataset st \<noteq> None"
      using step.hyps(3) parse_step_models by blast
    then obtain k where "k < i" "k < length lines" "dataset_annotation (lines ! k)"
      using reaches_dataset [OF step.hyps(1)] by blast
    then show ?thesis using adv by (auto intro: less_trans)
  qed
qed


lemma parse_loop_reaches:
  "parse_loop collection_name task lines i st = Inr st' \<Longrightarrow>
     reaches collection_name task lines i st \<Longrightarrow>
     \<exists>i'. reaches collection_name task lines i' st'"
proof (induction collection_name task lines i st rule: parse_loop.induct)
  case (1 collection_name task lines i st)
  show ?case
  proof (cases "i < length lines")
    case False
    then have "st' = st" using "1.prems"(1) by (simp add: parse_loop.simps)
    then show ?thesis using "1.prems"(2) by blast
  next
    case True
    then obtain i1 st1 where
      s: "parse_step collection_name task lines i st = Inr (i1, st1)"
      and l: "parse_loop collection_name task lines i1 st1 = Inr st'"
      using "1.prems"(1)
      by (subst (asm) parse_loop.simps) (auto split: sum.splits)
    have "reaches collection_name task lines i1 st1"
      using "1.prems"(2) True s by (rule reaches.step)
    then show ?thesis using "1.IH" [OF True s refl l] by blast
  qed
qed

text \<open>
  No model record without a dataset annotation: when the parse of a document returns
  and the list of models is not empty, a line of the document is a dataset annotation.
\<close>

lemma models_need_dataset_annotation:
  assumes "parse_lines collection_name readme task lines = Inr (c, models)"
    and "models \<noteq> []"
  shows "\<exists>k < length lines. dataset_annotation (lines ! k)"
proof -
  from assms(1) obtain st' where
    l: "parse_loop collection_name task lines 0 initial_state = Inr st'"
    and m: "models = st_models st'"
    by (auto simp: parse_lines_def split: sum.splits)
  from parse_loop_reaches [OF l reaches.start] obtain i' where
    "reaches collection_name task lines i' st'" by blast
  from reaches_models [OF this] assms(2) m show ?thesis by blast
qed





section \<open>Whole runs\<close>

subsection \<open>A malformed document aborts the run\<close>

lemma list_index_None: "list_index xs x = None \<longleftrightarrow> x \<notin> set xs"
  by (induction xs) auto

lemma parse_step_malformed_annotation:
  assumes "malformed_annotation lines i"
  shows "parse_step collection_name task lines i st = Inl IndexError"
  using assms
  by (auto simp: malformed_annotation_def parse_step_def py_nth_def Let_def)

lemma parse_header_missing:
  assumes "''Arch'' \<notin> set (header_cols line) \<or> ''ckpt'' \<notin> set (header_cols line)"
  shows "parse_header line = Inl ValueError"
proof (cases "list_index (header_cols line) ''Arch''")
  case None
  then show ?thesis by (simp add: parse_header_def Let_def)
next
  case (Some k)
  then have "''Arch'' \<in> set (header_cols line)"
    using list_index_None [of "header_cols line" "''Arch''"] by auto
  then have "list_index (header_cols line) ''ckpt'' = None"
    using assms by (simp add: list_index_None)
  then show ?thesis using Some by (simp add: parse_header_def Let_def)
qed

lemma parse_step_missing_column:
  assumes "table_missing_column lines i"
  shows "parse_step collection_name task lines i st = Inl ValueError"
proof -
  from assms obtain rest where line: "lines ! i = CHR ''|'' # rest"
    by (cases "lines ! i") (auto simp: table_missing_column_def)
  have "parse_header (lines ! i) = Inl ValueError"
    using assms by (intro parse_header_missing) (simp add: table_missing_column_def)
  then show ?thesis
    using assms line
    by (simp add: table_missing_column_def parse_step_def Let_def)
qed

lemma parse_files_append:
  "parse_files e (pre @ rest) file_modified w =
     (case parse_files e pre file_modified w of
        (w1, Inl err) \<Rightarrow> (w1, Inl err)
      | (w1, Inr m) \<Rightarrow> parse_files e rest m w1)"
  by (induction pre arbitrary: file_modified w) (auto split: sum.splits prod.splits)

lemma abort_keeps_files:
  assumes "file_list args = pre @ fn # post"
    and "parse_files e pre False w = (w1, Inr file_modified)"
    and "get_task_name e fn w1 = Inr task"
    and "read_file w1 fn = Inr text"
    and "reaches (fst (splitext (basename fn))) task (readlines text) i st"
    and "i < length (readlines text)"
    and "parse_step (fst (splitext (basename fn))) task (readlines text) i st = Inl err"
  shows "main e args w = (w1, Inl err)"
proof -
  have "parse_lines (fst (splitext (basename fn))) (relpath e fn) task (readlines text) =
      Inl err"
    using assms(5,6,7) by (rule parse_loop_error)
  then have "parse_doc e fn w1 = Inl err"
    using assms(3,4) by (simp add: parse_doc_def Let_def)
  then have "parse_md e fn w1 = Inl err"
    by (simp add: parse_md_def)
  then have "parse_files e (fn # post) file_modified w1 = (w1, Inl err)"
    by simp
  then have "parse_files e (file_list args) False w = (w1, Inl err)"
    using assms(1,2) by (simp add: parse_files_append)
  moreover have "file_list args \<noteq> []" using assms(1) by simp
  ultimately show ?thesis by (simp add: main_def)
qed

text \<open>
  Claim C6.  When the markdown file \<open>fn\<close> of the run holds, at a line the scan reaches, an
  annotation line whose fourth line is missing or holds no anchor, or the header row of a
  table without a column \<open>Arch\<close> or without a column \<open>ckpt\<close>, the run ends with an
  exception (\<open>IndexError\<close> in the first case, \<open>ValueError\<close> in the second) and the file
  system is exactly the one the earlier inputs left: what they wrote stays, nothing is
  rolled back and nothing more is written.
\<close>

theorem C6_abort_keeps_files:
  assumes "file_list args = pre @ fn # post"
    and "parse_files e pre False w = (w1, Inr file_modified)"
    and "get_task_name e fn w1 = Inr task"
    and "read_file w1 fn = Inr text"
    and "reaches (fst (splitext (basename fn))) task (readlines text) i st"
    and "i < length (readlines text)"
    and "malformed_annotation (readlines text) i \<or> table_missing_column (readlines text) i"
  shows "main e args w =
           (w1, Inl (if malformed_annotation (readlines text) i then IndexError
                     else ValueError))"
proof (cases "malformed_annotation (readlines text) i")
  case True
  then have "parse_step (fst (splitext (basename fn))) task (readlines text) i st =
      Inl IndexError"
    by (rule parse_step_malformed_annotation)
  then show ?thesis
    using abort_keeps_files [OF assms(1-6)] True by simp
next
  case False
  then have "table_missing_column (readlines text) i" using assms(7) by simp
  then have "parse_step (fst (splitext (basename fn))) task (readlines text) i st =
      Inl ValueError"
    by (rule parse_step_missing_column)
  then show ?thesis
    using abort_keeps_files [OF assms(1-6)] False by simp
qed

theorem C6_abort_keeps_files_witness:
  "file_list [''configs/a.md'', ''configs/b.md'', ''configs/a.xd''] =
     [''configs/a.md''] @ ''configs/b.md'' # [''configs/a.xd''] \<and>
   parse_files example_env [''configs/a.md''] False example_world =
     (example_world_after_a, Inr True) \<and>
   malformed_annotation (readlines example_malformed) 0 \<and>
   main example_env [''configs/a.md'', ''configs/b.md'', ''configs/a.xd''] example_world =
     (example_world_after_a, Inl IndexError) \<and>
   map_of (files example_world_after_a) ''configs/a.yml'' =
     Some (''Collections: a configs/a.md'' @ [newline] @
           ''Models: body--2d_kpt--foo--bar '' @ [newline])"
proof -
  have h1: "file_list [''configs/a.md'', ''configs/b.md'', ''configs/a.xd''] =
     [''configs/a.md''] @ ''configs/b.md'' # [''configs/a.xd'']"
    by code_simp
  have h2: "parse_files example_env [''configs/a.md''] False example_world =
     (example_world_after_a, Inr True)"
    by code_simp
  have h3: "get_task_name example_env ''configs/b.md'' example_world_after_a = Inr ''Body''"
    by code_simp
  have h4: "read_file example_world_after_a ''configs/b.md'' = Inr example_malformed"
    by code_simp
  have h5: "reaches (fst (splitext (basename ''configs/b.md''))) ''Body''
      (readlines example_malformed) 0 initial_state"
    by (rule reaches.start)
  have h6: "0 < length (readlines example_malformed)" by code_simp
  have h7: "malformed_annotation (readlines example_malformed) 0" by code_simp
  have h8: "malformed_annotation (readlines example_malformed) 0 \<or>
      table_missing_column (readlines example_malformed) 0"
    using h7 by simp
  have f: "map_of (files example_world_after_a) ''configs/a.yml'' =
     Some (''Collections: a configs/a.md'' @ [newline] @
           ''Models: body--2d_kpt--foo--bar '' @ [newline])"
    by code_simp
  show ?thesis
    using C6_abort_keeps_files [OF h1 h2 h3 h4 h5 h6 h8] h1 h2 h7 f by simp
qed


subsection \<open>The exit status\<close>

lemma dump_yaml_writes:
  "dump_yaml_and_check_difference text path w =
     (changed (path, map_of (files w) path, text), write_file path text w)"
  by (auto simp: dump_yaml_and_check_difference_def Let_def changed_def write_file_def
      update_conv' split: option.splits)

lemma replay_append:
  "replay (es1 @ es2) fs =
     (case replay es1 fs of None \<Rightarrow> None | Some fs' \<Rightarrow> replay es2 fs')"
  by (induction es1 fs rule: replay.induct) auto

lemma replay_write:
  "replay entries fs = Some (files w) \<Longrightarrow>
   replay (entries @ [(path, map_of (files w) path, text)]) fs =
     Some (files (write_file path text w))"
  by (simp add: replay_append write_file_def)

lemma run_log_refl: "run_log w w []"
  by (simp add: run_log_def)

lemma run_log_write:
  "run_log w w1 entries \<Longrightarrow>
   run_log w (write_file path text w1) (entries @ [(path, map_of (files w1) path, text)])"
  by (simp add: run_log_def replay_write) (simp add: write_file_def)

lemma parse_md_log:
  assumes "parse_md e fn w1 = Inr (d, w2)" and "run_log w w1 entries"
  shows "\<exists>entry. run_log w w2 (entries @ [entry]) \<and> d = changed entry"
proof -
  from assms(1) obtain result where
    "dump_yaml_and_check_difference (dump_result e result) (yml_file fn) w1 = (d, w2)"
    by (cases "parse_doc e fn w1") (auto simp: parse_md_def)
  then have "d = changed (yml_file fn, map_of (files w1) (yml_file fn), dump_result e result)"
    and "w2 = write_file (yml_file fn) (dump_result e result) w1"
    by (simp_all add: dump_yaml_writes)
  then show ?thesis using run_log_write [OF assms(2)] by blast
qed

lemma parse_files_log:
  assumes "parse_files e fns m w1 = (w2, r)" and "run_log w w1 entries"
  shows "\<exists>new. run_log w w2 (entries @ new) \<and>
           (\<forall>m'. r = Inr m' \<longrightarrow> m' = (m \<or> list_ex changed new))"
  using assms
proof (induction fns arbitrary: m w1 entries)
  case Nil
  then show ?case by (intro exI [of _ "[]"]) auto
next
  case (Cons fn fns)
  show ?case
  proof (cases "parse_md e fn w1")
    case (Inl err)
    then show ?thesis using Cons.prems by (intro exI [of _ "[]"]) auto
  next
    case (Inr p)
    obtain d w' where p: "p = (d, w')" by (cases p)
    from parse_md_log [OF Inr [unfolded p] Cons.prems(2)] obtain entry where
      log: "run_log w w' (entries @ [entry])" and d: "d = changed entry" by blast
    have rec: "parse_files e fns (m \<or> d) w' = (w2, r)"
      using Cons.prems(1) Inr p by simp
    from Cons.IH [OF rec log] obtain new where
      new: "run_log w w2 ((entries @ [entry]) @ new)"
        "\<forall>m'. r = Inr m' \<longrightarrow> m' = ((m \<or> d) \<or> list_ex changed new)"
      by blast
    show ?thesis
      using new d by (intro exI [of _ "entry # new"]) auto
  qed
qed





subsection \<open>The second run\<close>

lemma md_not_yml: "suffix ''md'' p \<Longrightarrow> suffix ''yml'' q \<Longrightarrow> p \<noteq> q"
  by (auto simp: suffix_def)

lemma yml_file_suffix: "suffix ''yml'' (yml_file fn)"
  by (simp add: yml_file_def suffix_def)

lemma yml_file_md: "yml_file (stem @ ''md'') = stem @ ''yml''"
  by (simp add: yml_file_def)

lemma yml_file_inj:
  assumes "suffix ''md'' a" and "suffix ''md'' b" and "yml_file a = yml_file b"
  shows "a = b"
proof -
  from assms(1,2) obtain s t where "a = s @ ''md''" "b = t @ ''md''"
    by (auto simp: suffix_def)
  then show ?thesis using assms(3) by (simp add: yml_file_md)
qed

lemma model_index_file_suffix: "suffix ''yml'' (model_index_file e)"
  by (simp add: model_index_file_def join_def suffix_def)

lemma readme_file_suffix: "suffix ''md'' (readme_file e fn)"
  by (simp add: readme_file_def join_def suffix_def)

lemma same_documents_refl: "same_documents fs fs"
  by (simp add: same_documents_def)

lemma same_documents_update:
  "same_documents fs fs' \<Longrightarrow> suffix ''yml'' path \<Longrightarrow>
     same_documents fs (AList.update path text fs')"
  using md_not_yml by (auto simp: same_documents_def update_conv')

lemma parse_doc_same:
  assumes "same_documents (files w) (files v)" and "suffix ''md'' fn"
  shows "parse_doc e fn v = parse_doc e fn w"
proof -
  have "map_of (files v) fn = map_of (files w) fn"
    using assms by (simp add: same_documents_def)
  moreover have "map_of (files v) (readme_file e fn) = map_of (files w) (readme_file e fn)"
    using assms(1) readme_file_suffix by (simp add: same_documents_def)
  ultimately show ?thesis
    by (simp add: parse_doc_def get_task_name_def read_file_def)
qed

lemma parse_md_same:
  assumes "same_documents (files w) (files v)" and "suffix ''md'' fn"
    and "parse_md e fn v = Inr (d, v')"
  shows "(\<exists>result. parse_doc e fn w = Inr result) \<and>
         d = changed (yml_file fn, map_of (files v) (yml_file fn), output_text e w fn) \<and>
         v' = write_file (yml_file fn) (output_text e w fn) v"
proof -
  from assms(3) obtain result where res: "parse_doc e fn v = Inr result"
    and "dump_yaml_and_check_difference (dump_result e result) (yml_file fn) v = (d, v')"
    by (cases "parse_doc e fn v") (auto simp: parse_md_def)
  moreover have "parse_doc e fn w = Inr result"
    using res parse_doc_same [OF assms(1,2)] by simp
  ultimately show ?thesis
    by (simp add: dump_yaml_writes output_text_def)
qed

text \<open>The first pass over the documents.\<close>

lemma first_pass:
  assumes "parse_files e fns m v = (v', Inr m')"
    and "\<forall>fn \<in> set fns. suffix ''md'' fn"
    and "same_documents (files w) (files v)"
  shows "(\<forall>fn \<in> set fns. \<exists>result. parse_doc e fn w = Inr result) \<and>
         (\<forall>fn \<in> set fns. map_of (files v') (yml_file fn) = Some (output_text e w fn)) \<and>
         (\<forall>path. path \<notin> yml_file ` set fns \<longrightarrow> map_of (files v') path = map_of (files v) path) \<and>
         (\<exists>entries. writes v' = writes v @ entries \<and>
            map again entries =
              map (\<lambda>fn. (yml_file fn, Some (output_text e w fn), output_text e w fn)) fns)"
  using assms
proof (induction fns arbitrary: m v)
  case Nil
  then show ?case by simp
next
  case (Cons fn fns)
  have md: "suffix ''md'' fn" and mds: "\<forall>fn \<in> set fns. suffix ''md'' fn"
    using Cons.prems(2) by simp_all
  from Cons.prems(1) obtain d v1 where pm: "parse_md e fn v = Inr (d, v1)"
    and rec: "parse_files e fns (m \<or> d) v1 = (v', Inr m')"
    by (cases "parse_md e fn v") auto
  let ?y = "yml_file fn" and ?t = "output_text e w fn"
  from parse_md_same [OF Cons.prems(3) md pm] have
    res: "\<exists>result. parse_doc e fn w = Inr result" and
    v1: "v1 = write_file ?y ?t v" by simp_all
  have files1: "files v1 = AList.update ?y ?t (files v)"
    and writes1: "writes v1 = writes v @ [(?y, map_of (files v) ?y, ?t)]"
    using v1 by (simp_all add: write_file_def)
  have same1: "same_documents (files w) (files v1)"
    unfolding files1 using Cons.prems(3) yml_file_suffix by (rule same_documents_update)
  from Cons.IH [OF rec mds same1] have
    ih1: "\<forall>fn \<in> set fns. \<exists>result. parse_doc e fn w = Inr result" and
    ih2: "\<forall>fn \<in> set fns. map_of (files v') (yml_file fn) = Some (output_text e w fn)" and
    ih3: "\<forall>path. path \<notin> yml_file ` set fns \<longrightarrow> map_of (files v') path = map_of (files v1) path"
    and ih4: "\<exists>entries. writes v' = writes v1 @ entries \<and>
            map again entries =
              map (\<lambda>fn. (yml_file fn, Some (output_text e w fn), output_text e w fn)) fns"
    by blast+
  have here: "map_of (files v') ?y = Some ?t"
  proof (cases "?y \<in> yml_file ` set fns")
    case True
    then obtain fn' where fn': "fn' \<in> set fns" "yml_file fn' = ?y" by auto
    then have "fn' = fn" using yml_file_inj md mds by blast
    then show ?thesis using ih2 fn' by auto
  next
    case False
    then have "map_of (files v') ?y = map_of (files v1) ?y" using ih3 by simp
    then show ?thesis by (simp add: files1 update_conv')
  qed
  have frame: "map_of (files v') path = map_of (files v) path"
    if "path \<notin> yml_file ` set (fn # fns)" for path
  proof -
    have "map_of (files v') path = map_of (files v1) path" using that ih3 by simp
    also have "\<dots> = map_of (files v) path" using that by (simp add: files1 update_conv')
    finally show ?thesis .
  qed
  from ih4 obtain entries where es: "writes v' = writes v1 @ entries"
    "map again entries =
       map (\<lambda>fn. (yml_file fn, Some (output_text e w fn), output_text e w fn)) fns"
    by blast
  have log: "\<exists>entries. writes v' = writes v @ entries \<and>
      map again entries =
        map (\<lambda>fn. (yml_file fn, Some (output_text e w fn), output_text e w fn)) (fn # fns)"
    using es writes1
    by (intro exI [of _ "(?y, map_of (files v) ?y, ?t) # entries"]) (simp add: again_def)
  show ?case
    using res ih1 here ih2 frame log by simp
qed

text \<open>The pass over the documents when every output file holds its text already.\<close>

lemma second_pass:
  assumes "\<forall>fn \<in> set fns. suffix ''md'' fn"
    and "\<forall>fn \<in> set fns. \<exists>result. parse_doc e fn w = Inr result"
    and "\<forall>fn \<in> set fns. map_of (files v) (yml_file fn) = Some (output_text e w fn)"
    and "same_documents (files w) (files v)"
  shows "parse_files e fns m v =
           (v\<lparr>writes := writes v @
                map (\<lambda>fn. (yml_file fn, Some (output_text e w fn), output_text e w fn)) fns\<rparr>,
            Inr m)"
  using assms
proof (induction fns arbitrary: v)
  case Nil
  then show ?case by simp
next
  case (Cons fn fns)
  let ?y = "yml_file fn" and ?t = "output_text e w fn"
  let ?v1 = "v\<lparr>writes := writes v @ [(?y, Some ?t, ?t)]\<rparr>"
  have md: "suffix ''md'' fn" using Cons.prems(1) by simp
  from Cons.prems(2) obtain result where res: "parse_doc e fn w = Inr result" by auto
  have doc: "parse_doc e fn v = Inr result"
    using res parse_doc_same [OF Cons.prems(4) md] by simp
  have t: "dump_result e result = ?t" using res by (simp add: output_text_def)
  have holds: "map_of (files v) ?y = Some ?t" using Cons.prems(3) by simp
  have w1: "write_file ?y ?t v = ?v1"
    using holds by (simp add: write_file_def update_triv)
  have pm: "parse_md e fn v = Inr (False, ?v1)"
    using doc t holds w1 by (simp add: parse_md_def dump_yaml_writes changed_def)
  have "parse_files e fns m ?v1 =
      (?v1\<lparr>writes := writes ?v1 @
          map (\<lambda>fn. (yml_file fn, Some (output_text e w fn), output_text e w fn)) fns\<rparr>,
       Inr m)"
    using Cons.prems by (intro Cons.IH) simp_all
  then show ?case using pm by simp
qed

lemma model_index_file_not_globbed:
  "\<not> glob_yml (join (root e) ''configs'') (model_index_file e)"
  by (auto simp: glob_yml_def model_index_file_def join_def prefix_def)

lemma model_index_update:
  "model_index e (write_file (model_index_file e) text w) = model_index e w"
proof -
  have "filter (glob_yml (join (root e) ''configs''))
          (map fst (AList.update (model_index_file e) text (files w))) =
        filter (glob_yml (join (root e) ''configs'')) (map fst (files w))"
    using model_index_file_not_globbed [of e] by (simp add: update_keys)
  then show ?thesis by (simp add: model_index_def write_file_def)
qed




end
